theory Spec2Isabelle
  imports Complex_Main
begin

section \<open>Python values used by the account state machine\<close>

text \<open>
  A Python \<^verbatim>\<open>dict\<close> keeps its keys in insertion order: assigning to a key that is
  already there replaces the value in place, assigning to a new key appends it.
  It is modelled as an association list with exactly this update.
\<close>

fun dict_set :: "('k \<times> 'v) list \<Rightarrow> 'k \<Rightarrow> 'v \<Rightarrow> ('k \<times> 'v) list" where
  "dict_set [] k v = [(k, v)]"
| "dict_set ((k', v') # d) k v =
     (if k' = k then (k, v) # d else (k', v') # dict_set d k v)"

definition dict_get :: "('k \<times> 'v) list \<Rightarrow> 'k \<Rightarrow> 'v option" where
  "dict_get d k = map_of d k"

text \<open>Truthiness of an optional string (\<^verbatim>\<open>if token:\<close>): neither \<^verbatim>\<open>None\<close> nor empty.\<close>

fun truthy :: "string option \<Rightarrow> bool" where
  "truthy None = False"
| "truthy (Some s) = (s \<noteq> [])"

text \<open>The exceptions raised by the code under study.\<close>

datatype error = ValueError string | KeyError string | TypeError

text \<open>
  \<^verbatim>\<open>class State(Enum)\<close> of account.py, with the value given to the tag
  \<^verbatim>\<open>account:state\<close>.
\<close>

datatype State = VANILLA | ASSIGNED | RELEASED | EXPIRED

fun state_value :: "State \<Rightarrow> string" where
  "state_value VANILLA = ''vanilla''"
| "state_value ASSIGNED = ''assigned''"
| "state_value RELEASED = ''released''"
| "state_value EXPIRED = ''expired''"

definition all_states :: "State list" where
  "all_states = [VANILLA, ASSIGNED, RELEASED, EXPIRED]"

text \<open>
  Python is untyped: the \<^verbatim>\<open>state\<close> argument of \<^verbatim>\<open>Account.move\<close> and the operands of a
  comparison can be any object. The objects that occur in the code and in its tests are
  members of \<^verbatim>\<open>State\<close>, strings, \<^verbatim>\<open>None\<close> and a \<^verbatim>\<open>SimpleNamespace(value=...)\<close>.
  Equality of two such objects is Python's: a member of a plain \<^verbatim>\<open>Enum\<close> is equal to
  itself only, never to a string, so \<^verbatim>\<open>==\<close> is the equality of this datatype.
\<close>

datatype pyobj = Member State | PyStr string | PyNone | Namespace string

fun isinstance_State :: "pyobj \<Rightarrow> bool" where
  "isinstance_State (Member s) = True"
| "isinstance_State _ = False"

fun format_obj :: "pyobj \<Rightarrow> string" where
  "format_obj (Member VANILLA) = ''State.VANILLA''"
| "format_obj (Member ASSIGNED) = ''State.ASSIGNED''"
| "format_obj (Member RELEASED) = ''State.RELEASED''"
| "format_obj (Member EXPIRED) = ''State.EXPIRED''"
| "format_obj (PyStr s) = s"
| "format_obj PyNone = ''None''"
| "format_obj (Namespace v) = ''namespace(value='' @ [CHR 0x27] @ v @ [CHR 0x27] @ '')''"

section \<open>The organizations client\<close>

text \<open>
  One page of a paginated answer of the provider: the items and the token of the next
  page, if any.
\<close>

record 'a chunk =
  Items :: "'a list"
  NextToken :: "string option"

record account_attributes =
  Id :: string
  Arn :: string
  Email :: string
  Name :: string
  Status :: string

text \<open>
  The client \<^verbatim>\<open>session.client('organizations')\<close>. Its three read operations answer as
  the provider does, as functions of the request parameters (resource or parent, and the
  pagination token when one is sent). Every call of \<^verbatim>\<open>tag_resource\<close> is recorded, in
  order, with its \<^verbatim>\<open>ResourceId\<close> and \<^verbatim>\<open>Tags\<close> arguments: the number of tag mutations is
  the length of that record.
\<close>

record organizations =
  list_tags_for_resource :: "string \<Rightarrow> string option \<Rightarrow> (string \<times> string) chunk"
  list_accounts_for_parent :: "string \<Rightarrow> string option \<Rightarrow> account_attributes chunk"
  describe_account :: "string \<Rightarrow> account_attributes"
  tag_resource_calls :: "(string \<times> (string \<times> string) list) list"

definition tag_resource ::
  "string \<Rightarrow> (string \<times> string) list \<Rightarrow> organizations \<Rightarrow> organizations" where
  "tag_resource resource tags c =
     c\<lparr>tag_resource_calls := tag_resource_calls c @ [(resource, tags)]\<rparr>"

text \<open>The process environment \<^verbatim>\<open>os.environ\<close>.\<close>

type_synonym environ = "string \<Rightarrow> string option"

section \<open>Account.move\<close>

text \<open>
  \<^verbatim>\<open>Account.move(account, state)\<close>: the type check, then the tagging unless in dry-run
  mode. The result pairs the outcome (the exception raised, or a normal return) with the
  client after the call, so that the tag mutations made on either path can be counted.
\<close>

definition move ::
  "environ \<Rightarrow> string \<Rightarrow> pyobj \<Rightarrow> organizations \<Rightarrow> (error + unit) \<times> organizations" where
  "move env account state c =
     (if \<not> isinstance_State state
      then (Inl (ValueError (''Unexpected state type '' @ format_obj state)), c)
      else (case state of
              Member s \<Rightarrow>
                (if env ''DRY_RUN'' = Some ''FALSE''
                 then (Inr (), tag_resource account [(''account:state'', state_value s)] c)
                 else (Inr (), c))
            | _ \<Rightarrow> (Inr (), c)))"

section \<open>Regular expressions and \<^verbatim>\<open>re.fullmatch\<close>\<close>

text \<open>
  The owner pattern uses character classes, concatenation, \<^verbatim>\<open>*\<close>, \<^verbatim>\<open>+\<close> and
  \<^verbatim>\<open>{2,}\<close> only; for such patterns \<^verbatim>\<open>re.fullmatch\<close> decides membership of the whole
  text in the language of the pattern. The matcher takes the derivative of the
  pattern by each character of the text in turn. A class is a list of inclusive
  ranges of characters, compared by their codes. All classes of the pattern are
  ASCII, and a character outside ASCII is a sequence of bytes above 127 here, so
  it is in no class, as in Python.
\<close>

datatype rexp =
  Zero | One | Class "(char \<times> char) list" | Alt rexp rexp | Seq rexp rexp | Star rexp

definition in_class :: "(char \<times> char) list \<Rightarrow> char \<Rightarrow> bool" where
  "in_class rs c =
     list_ex (\<lambda>(lo, hi). (of_char lo :: nat) \<le> of_char c \<and> (of_char c :: nat) \<le> of_char hi) rs"

fun nullable :: "rexp \<Rightarrow> bool" where
  "nullable Zero = False"
| "nullable One = True"
| "nullable (Class rs) = False"
| "nullable (Alt r s) = (nullable r \<or> nullable s)"
| "nullable (Seq r s) = (nullable r \<and> nullable s)"
| "nullable (Star r) = True"

fun deriv :: "char \<Rightarrow> rexp \<Rightarrow> rexp" where
  "deriv c Zero = Zero"
| "deriv c One = Zero"
| "deriv c (Class rs) = (if in_class rs c then One else Zero)"
| "deriv c (Alt r s) = Alt (deriv c r) (deriv c s)"
| "deriv c (Seq r s) =
     (if nullable r then Alt (Seq (deriv c r) s) (deriv c s) else Seq (deriv c r) s)"
| "deriv c (Star r) = Seq (deriv c r) (Star r)"

definition fullmatch :: "rexp \<Rightarrow> string \<Rightarrow> bool" where
  "fullmatch r s = nullable (fold deriv s r)"

text \<open>
  What it decides: the texts of a pattern, that is, the language of the regular
  expression. \<open>fullmatch\<close> is shown below to hold exactly for them.
\<close>

inductive_set repeated :: "string set \<Rightarrow> string set" for A :: "string set" where
  none: "[] \<in> repeated A"
| more: "u \<in> A \<Longrightarrow> v \<in> repeated A \<Longrightarrow> u @ v \<in> repeated A"

fun texts :: "rexp \<Rightarrow> string set" where
  "texts Zero = {}"
| "texts One = {[]}"
| "texts (Class rs) = {[c] | c. in_class rs c}"
| "texts (Alt r s) = texts r \<union> texts s"
| "texts (Seq r s) = {u @ v | u v. u \<in> texts r \<and> v \<in> texts s}"
| "texts (Star r) = repeated (texts r)"

definition Plus :: "rexp \<Rightarrow> rexp" where
  "Plus r = Seq r (Star r)"

definition AtLeast2 :: "rexp \<Rightarrow> rexp" where
  "AtLeast2 r = Seq r (Seq r (Star r))"

definition Lit :: "char \<Rightarrow> rexp" where
  "Lit c = Class [(c, c)]"

definition alnum :: "(char \<times> char) list" where
  "alnum = [(CHR ''A'', CHR ''Z''), (CHR ''a'', CHR ''z''), (CHR ''0'', CHR ''9'')]"

text \<open>
  \<^verbatim>\<open>([A-Za-z0-9]+[.-_])*[A-Za-z0-9]+@[A-Za-z0-9-]+(\.[A-Z|a-z]{2,})+\<close>, as written in
  account.py: \<^verbatim>\<open>[.-_]\<close> is the range from the dot to the underscore, and \<^verbatim>\<open>[A-Z|a-z]\<close>
  contains the vertical bar.
\<close>

definition VALID_EMAIL :: rexp where
  "VALID_EMAIL =
     Seq (Star (Seq (Plus (Class alnum)) (Class [(CHR ''.'', CHR ''_'')])))
    (Seq (Plus (Class alnum))
    (Seq (Lit (CHR ''@''))
    (Seq (Plus (Class (alnum @ [(CHR ''-'', CHR ''-'')])))
         (Plus (Seq (Lit (CHR ''.''))
                    (AtLeast2 (Class [(CHR ''A'', CHR ''Z''), (CHR ''|'', CHR ''|''),
                                      (CHR ''a'', CHR ''z'')])))))))"

section \<open>Account: tags\<close>

text \<open>
  The generator \<^verbatim>\<open>Account.iterate_tags\<close>, drained: it asks for a page, yields its
  items, and goes on with the token of the page until a page comes without one. The
  provider decides how many pages there are, so the loop is bounded by a number of
  pages \<open>fuel\<close>: the result is \<open>None\<close> when the listing has more pages than that.
\<close>

fun iterate_tags ::
  "nat \<Rightarrow> organizations \<Rightarrow> string \<Rightarrow> string option \<Rightarrow> (string \<times> string) list option" where
  "iterate_tags 0 c account token = None"
| "iterate_tags (Suc n) c account token =
     (let chunk = list_tags_for_resource c account (if truthy token then token else None)
      in if truthy (NextToken chunk)
         then (case iterate_tags n c account (NextToken chunk) of
                 None \<Rightarrow> None
               | Some rest \<Rightarrow> Some (Items chunk @ rest))
         else Some (Items chunk))"

text \<open>
  The pages that this loop receives, one per request, in order: the chain of pages that
  starts with the request without a token and follows the tokens.
\<close>

fun tag_pages ::
  "nat \<Rightarrow> organizations \<Rightarrow> string \<Rightarrow> string option \<Rightarrow> (string \<times> string) chunk list option" where
  "tag_pages 0 c account token = None"
| "tag_pages (Suc n) c account token =
     (let chunk = list_tags_for_resource c account (if truthy token then token else None)
      in if truthy (NextToken chunk)
         then (case tag_pages n c account (NextToken chunk) of
                 None \<Rightarrow> None
               | Some rest \<Rightarrow> Some (chunk # rest))
         else Some [chunk])"

text \<open>The loop of \<^verbatim>\<open>Account.list_tags\<close> over the items: \<^verbatim>\<open>tags[Key] = Value\<close>.\<close>

fun collect_tags ::
  "(string \<times> string) list \<Rightarrow> (string \<times> string) list \<Rightarrow> (string \<times> string) list" where
  "collect_tags tags [] = tags"
| "collect_tags tags (item # items) = collect_tags (dict_set tags (fst item) (snd item)) items"

definition list_tags :: "nat \<Rightarrow> organizations \<Rightarrow> string \<Rightarrow> (string \<times> string) list option" where
  "list_tags fuel c account =
     (case iterate_tags fuel c account None of
        None \<Rightarrow> None
      | Some items \<Rightarrow> Some (collect_tags [] items))"

definition validate_owner :: "string \<Rightarrow> bool" where
  "validate_owner text = fullmatch VALID_EMAIL text"

definition validate_state :: "string \<Rightarrow> bool" where
  "validate_state text = (text \<in> set (map state_value all_states))"

definition cannot_assign :: "string \<Rightarrow> string \<Rightarrow> string \<Rightarrow> string" where
  "cannot_assign what tag account =
     what @ '' '' @ [CHR 0x27] @ tag @ [CHR 0x27] @ '' on account '' @ [CHR 0x27] @ account
       @ [CHR 0x27] @ '' - this account can not be assigned''"

text \<open>
  \<^verbatim>\<open>Account.validate_tags\<close>: the four checks in the order of the source, each raising
  a \<^verbatim>\<open>ValueError\<close>. \<open>None\<close> stands for a tag listing that did not end within \<open>fuel\<close>
  pages.
\<close>

definition validate_tags :: "nat \<Rightarrow> organizations \<Rightarrow> string \<Rightarrow> (error + unit) option" where
  "validate_tags fuel c account =
     (case list_tags fuel c account of
        None \<Rightarrow> None
      | Some tags \<Rightarrow> Some (
          case dict_get tags ''account:owner'' of
            None \<Rightarrow> Inl (ValueError (cannot_assign ''Missing tag'' ''account:owner'' account))
          | Some owner \<Rightarrow>
              if \<not> validate_owner owner
              then Inl (ValueError (cannot_assign ''Invalid value for tag'' ''account:owner'' account))
              else (case dict_get tags ''account:state'' of
                      None \<Rightarrow> Inl (ValueError (cannot_assign ''Missing tag'' ''account:state'' account))
                    | Some state \<Rightarrow>
                        if \<not> validate_state state
                        then Inl (ValueError (cannot_assign ''Invalid value for tag'' ''account:state'' account))
                        else Inr ())))"

section \<open>Account: listing and describing\<close>

text \<open>
  The generator \<^verbatim>\<open>Account.list\<close>, drained, with the same page bound. (It is named
  \<open>list_accounts\<close> here, \<open>list\<close> being the type of lists.)
\<close>

fun list_accounts ::
  "nat \<Rightarrow> organizations \<Rightarrow> string \<Rightarrow> string option \<Rightarrow> string list option" where
  "list_accounts 0 c parent token = None"
| "list_accounts (Suc n) c parent token =
     (let chunk = list_accounts_for_parent c parent (if truthy token then token else None)
      in if truthy (NextToken chunk)
         then (case list_accounts n c parent (NextToken chunk) of
                 None \<Rightarrow> None
               | Some rest \<Rightarrow> Some (map Id (Items chunk) @ rest))
         else Some (map Id (Items chunk)))"

record account_view =
  item_id :: string
  item_arn :: string
  item_email :: string
  item_name :: string
  is_active :: bool
  tags :: "(string \<times> string) list"

definition describe :: "nat \<Rightarrow> organizations \<Rightarrow> string \<Rightarrow> account_view option" where
  "describe fuel c ident =
     (let attributes = describe_account c ident
      in case list_tags fuel c ident of
           None \<Rightarrow> None
         | Some ts \<Rightarrow>
             Some \<lparr>item_id = ident, item_arn = Arn attributes, item_email = Email attributes,
                   item_name = Name attributes,
                   is_active = (if Status attributes = ''ACTIVE'' then True else False),
                   tags = ts\<rparr>)"

section \<open>The maintenance scanner (move\_expired\_accounts\_handler.py)\<close>

text \<open>
  \<^verbatim>\<open>tags.get('account:state')\<close> gives the string of the tag, or \<^verbatim>\<open>None\<close>.
\<close>

definition tags_get :: "(string \<times> string) list \<Rightarrow> string \<Rightarrow> pyobj" where
  "tags_get ts k = (case dict_get ts k of None \<Rightarrow> PyNone | Some v \<Rightarrow> PyStr v)"

text \<open>
  The body of the inner loop of \<^verbatim>\<open>handle_event\<close> for one account: describe it, skip it
  when it is inactive, skip it when \<^verbatim>\<open>item.tags.get('account:state') != State.RELEASED\<close>,
  else move it to \<^verbatim>\<open>State.EXPIRED\<close>.
\<close>

definition expire_account ::
  "nat \<Rightarrow> environ \<Rightarrow> string \<Rightarrow> organizations \<Rightarrow> ((error + unit) \<times> organizations) option" where
  "expire_account fuel env account c =
     (case describe fuel c account of
        None \<Rightarrow> None
      | Some item \<Rightarrow>
          if \<not> is_active item then Some (Inr (), c)
          else if tags_get (tags item) ''account:state'' \<noteq> Member RELEASED then Some (Inr (), c)
          else Some (move env account (Member EXPIRED) c))"

fun expire_accounts ::
  "nat \<Rightarrow> environ \<Rightarrow> string list \<Rightarrow> organizations \<Rightarrow> ((error + unit) \<times> organizations) option" where
  "expire_accounts fuel env [] c = Some (Inr (), c)"
| "expire_accounts fuel env (account # accounts) c =
     (case expire_account fuel env account c of
        None \<Rightarrow> None
      | Some (Inl e, c') \<Rightarrow> Some (Inl e, c')
      | Some (Inr u, c') \<Rightarrow> expire_accounts fuel env accounts c')"

text \<open>
  The outer loop over the organizational units. The answers of the client to the read
  operations do not depend on the recorded \<^verbatim>\<open>tag_resource\<close> calls, so draining the
  listing of a unit before visiting its accounts gives the same calls as the generator
  does page by page.
\<close>

fun expire_units ::
  "nat \<Rightarrow> environ \<Rightarrow> string list \<Rightarrow> organizations \<Rightarrow> ((error + unit) \<times> organizations) option" where
  "expire_units fuel env [] c = Some (Inr (), c)"
| "expire_units fuel env (unit # units) c =
     (case list_accounts fuel c unit None of
        None \<Rightarrow> None
      | Some accounts \<Rightarrow>
          (case expire_accounts fuel env accounts c of
             None \<Rightarrow> None
           | Some (Inl e, c') \<Rightarrow> Some (Inl e, c')
           | Some (Inr u, c') \<Rightarrow> expire_units fuel env units c'))"

text \<open>
  \<^verbatim>\<open>handle_event\<close>, below its \<^verbatim>\<open>trap_exception\<close> decorator. \<open>units\<close> is
  \<^verbatim>\<open>get_organizational_units().keys()\<close>, a configuration that is not part of the handler.
\<close>

definition handle_event ::
  "nat \<Rightarrow> environ \<Rightarrow> string list \<Rightarrow> organizations \<Rightarrow> ((error + unit) \<times> organizations) option" where
  "handle_event fuel env units c = expire_units fuel env units c"

section \<open>The metering engine (on\_account\_event\_then\_meter\_handler.py)\<close>

text \<open>
  A transaction is a Python \<^verbatim>\<open>dict\<close> from strings to numbers (clock readings, a
  duration) and strings (the identifier). The type \<open>'t\<close> of the numbers is left open:
  the engine only subtracts two of them, so what is proved holds for every number type
  with a subtraction, that of Python's floats included.
\<close>

datatype 't jvalue = Num 't | Str string

type_synonym 't transaction = "(string \<times> 't jvalue) list"

text \<open>
  The world of the engine: the ledger behind \<^verbatim>\<open>Datastore.get_instance()\<close>, the
  events emitted so far through \<^verbatim>\<open>Events.emit_spa_event\<close>, oldest first, each with its
  label and payload, and the journal of the calls that the engine has made to the two
  services, in the order in which it made them: every \<^verbatim>\<open>assign\<close> with its key and value
  (\<open>None\<close> for a deletion) and every \<^verbatim>\<open>emit_spa_event\<close> with its label and payload.
  The journal is what tells a deletion made before an emission from one made after it.
\<close>

datatype 't effect =
  Assigned string "'t transaction option" | Emitted string "'t transaction"

record 't meter =
  ledger :: "string \<Rightarrow> 't transaction option"
  emitted :: "(string \<times> 't transaction) list"
  journal :: "'t effect list"

text \<open>
  Modelled from the spec: the class \<^verbatim>\<open>Datastore\<close> (module datastore) is not among the
  sources. Section 4.2 of the specification: \<^verbatim>\<open>assign(key, value)\<close> is an upsert,
  \<^verbatim>\<open>assign(key, null)\<close> deletes, \<^verbatim>\<open>retrieve(key)\<close> gives the value or absent. Expiry
  of records after their time to live is not modelled: no record expires between two
  deliveries.
\<close>

definition assign :: "string \<Rightarrow> 't transaction option \<Rightarrow> 't meter \<Rightarrow> 't meter" where
  "assign key val st =
     st\<lparr>ledger := (ledger st)(key := val), journal := journal st @ [Assigned key val]\<rparr>"

definition retrieve :: "'t meter \<Rightarrow> string \<Rightarrow> 't transaction option" where
  "retrieve st key = ledger st key"

text \<open>
  Modelled from the spec: \<^verbatim>\<open>Events.emit_spa_event\<close> (module events) is not among the
  sources. Section 6 of the specification: the outbound event is the envelope of a label
  and a payload; emitting it is recorded here.
\<close>

definition emit_spa_event :: "string \<Rightarrow> 't transaction \<Rightarrow> 't meter \<Rightarrow> 't meter" where
  "emit_spa_event label payload st =
     st\<lparr>emitted := emitted st @ [(label, payload)],
        journal := journal st @ [Emitted label payload]\<rparr>"

text \<open>
  The decoded input of \<^verbatim>\<open>Events.decode_account_event\<close>: a label and an account.
\<close>

record account_event =
  label :: string
  account :: string

text \<open>
  \<^verbatim>\<open>handle_created_event\<close> and \<^verbatim>\<open>handle_expired_event\<close>. \<open>now\<close> is the reading of
  \<^verbatim>\<open>time()\<close> and \<open>uid\<close> the string of \<^verbatim>\<open>uuid4()\<close> taken by the call.
\<close>

definition handle_created_event :: "account_event \<Rightarrow> 't \<Rightarrow> string \<Rightarrow> 't meter \<Rightarrow> 't meter" where
  "handle_created_event input now uid st =
     (let key = ''OnBoarding '' @ account input;
          transaction = [(''begin'', Num now), (''identifier'', Str uid)]
      in assign key (Some transaction) st)"

definition handle_expired_event :: "account_event \<Rightarrow> 't \<Rightarrow> string \<Rightarrow> 't meter \<Rightarrow> 't meter" where
  "handle_expired_event input now uid st =
     (let key = ''Maintenance '' @ account input;
          transaction = [(''begin'', Num now), (''identifier'', Str uid)]
      in assign key (Some transaction) st)"

text \<open>
  The common body of \<^verbatim>\<open>update_maintenance_transaction\<close> and
  \<^verbatim>\<open>update_onboarding_transaction\<close>, which differ in the key and in the label only:
  retrieve; if the transaction is there (and not an empty \<^verbatim>\<open>dict\<close>, which is false in
  Python), delete it from the ledger, set \<^verbatim>\<open>end\<close>, compute \<^verbatim>\<open>duration\<close> from
  \<^verbatim>\<open>end\<close> and \<^verbatim>\<open>begin\<close>, emit. Reading \<^verbatim>\<open>begin\<close> raises \<^verbatim>\<open>KeyError\<close> when the key is
  missing, and the subtraction raises \<^verbatim>\<open>TypeError\<close> when it is a string; both happen
  after the deletion. (Reading \<^verbatim>\<open>end\<close> back finds the number just stored; the other
  branch of that read is never taken.)
\<close>

definition update_transaction ::
  "string \<Rightarrow> string \<Rightarrow> ('t::minus) \<Rightarrow> 't meter \<Rightarrow> (error + unit) \<times> 't meter" where
  "update_transaction key lbl now st =
     (case retrieve st key of
        None \<Rightarrow> (Inr (), st)
      | Some transaction \<Rightarrow>
          if transaction = [] then (Inr (), st)
          else
            (let st1 = assign key None st;
                 transaction1 = dict_set transaction ''end'' (Num now)
             in case dict_get transaction1 ''end'' of
                  Some (Num e) \<Rightarrow>
                    (case dict_get transaction1 ''begin'' of
                       None \<Rightarrow> (Inl (KeyError ''begin''), st1)
                     | Some (Str s) \<Rightarrow> (Inl TypeError, st1)
                     | Some (Num b) \<Rightarrow>
                         (let transaction2 = dict_set transaction1 ''duration'' (Num (e - b))
                          in (Inr (), emit_spa_event lbl transaction2 st1)))
                | _ \<Rightarrow> (Inl (KeyError ''end''), st1)))"

definition update_maintenance_transaction ::
  "account_event \<Rightarrow> ('t::minus) \<Rightarrow> 't meter \<Rightarrow> (error + unit) \<times> 't meter" where
  "update_maintenance_transaction input now st =
     update_transaction (''Maintenance '' @ account input) ''SuccessfulMaintenanceEvent'' now st"

definition update_onboarding_transaction ::
  "account_event \<Rightarrow> ('t::minus) \<Rightarrow> 't meter \<Rightarrow> (error + unit) \<times> 't meter" where
  "update_onboarding_transaction input now st =
     update_transaction (''OnBoarding '' @ account input) ''SuccessfulOnBoardingEvent'' now st"

text \<open>
  \<^verbatim>\<open>handle_released_event\<close>: the maintenance transaction, then the onboarding one.
  \<open>now1\<close> and \<open>now2\<close> are the readings of the clock available to the first and to the
  second update. An exception of the first update ends the call.
\<close>

definition handle_released_event ::
  "account_event \<Rightarrow> ('t::minus) \<Rightarrow> 't \<Rightarrow> 't meter \<Rightarrow> (error + unit) \<times> 't meter" where
  "handle_released_event input now1 now2 st =
     (case update_maintenance_transaction input now1 st of
        (Inl e, st1) \<Rightarrow> (Inl e, st1)
      | (Inr u, st1) \<Rightarrow> update_onboarding_transaction input now2 st1)"

text \<open>
  \<^verbatim>\<open>handle_account_event\<close>, below its \<^verbatim>\<open>trap_exception\<close> decorator: the dispatch on
  the label and the returned text.
\<close>

definition handle_account_event ::
  "account_event \<Rightarrow> ('t::minus) \<Rightarrow> 't \<Rightarrow> string \<Rightarrow> 't meter \<Rightarrow> (error + string) \<times> 't meter" where
  "handle_account_event input now1 now2 uid st =
     (let ok = Inr (''[OK] '' @ label input @ '' '' @ account input)
      in if label input = ''CreatedAccount'' then (ok, handle_created_event input now1 uid st)
         else if label input = ''ExpiredAccount'' then (ok, handle_expired_event input now1 uid st)
         else if label input = ''ReleasedAccount''
           then (case handle_released_event input now1 now2 st of
                   (Inl e, st1) \<Rightarrow> (Inl e, st1)
                 | (Inr u, st1) \<Rightarrow> (ok, st1))
         else (ok, st))"

text \<open>
  The shape of the transactions that the engine itself writes: a number under
  \<^verbatim>\<open>begin\<close> and a string under \<^verbatim>\<open>identifier\<close>. The engine is the only writer of the
  ledger, so every record it finds there has this shape.
\<close>

definition started :: "'t transaction \<Rightarrow> bool" where
  "started t =
     ((case dict_get t ''begin'' of Some (Num b) \<Rightarrow> True | _ \<Rightarrow> False) \<and>
      (case dict_get t ''identifier'' of Some (Str u) \<Rightarrow> True | _ \<Rightarrow> False))"

definition ledger_started :: "'t meter \<Rightarrow> bool" where
  "ledger_started st = (\<forall>key t. ledger st key = Some t \<longrightarrow> started t)"

text \<open>
  The payload \<open>p\<close> completes the transaction \<open>t\<close> at the reading \<open>e\<close>: it has the
  begin and the identifier of \<open>t\<close>, \<open>e\<close> as its end, and as its duration the end minus
  the begin.
\<close>

definition completes :: "('t::minus) transaction \<Rightarrow> 't \<Rightarrow> 't transaction \<Rightarrow> bool" where
  "completes t e p =
     (case (dict_get t ''begin'', dict_get t ''identifier'') of
        (Some (Num b), Some (Str u)) \<Rightarrow>
          dict_get p ''begin'' = Some (Num b) \<and> dict_get p ''identifier'' = Some (Str u) \<and>
          dict_get p ''end'' = Some (Num e) \<and> dict_get p ''duration'' = Some (Num (e - b))
      | _ \<Rightarrow> False)"

text \<open>The number of events emitted so far under a label.\<close>

definition count_emitted :: "string \<Rightarrow> 't meter \<Rightarrow> nat" where
  "count_emitted lbl st = length (filter (\<lambda>ev. fst ev = lbl) (emitted st))"

definition no_transaction :: "'t meter" where
  "no_transaction = \<lparr>ledger = (\<lambda>key. None), emitted = [], journal = []\<rparr>"

section \<open>The reporting aggregator (on\_record\_handler.py)\<close>

text \<open>
  A record of the metering table, as \<^verbatim>\<open>KeyValueStore.enumerate\<close> gives it: the two
  keys and, under \<^verbatim>\<open>value\<close>, the stored payload, a mapping from strings to values of
  any type \<open>'v\<close>.
\<close>

record 'v stored_record =
  rec_hash :: string
  rec_range :: string
  rec_value :: "(string \<times> 'v) list"

text \<open>
  What a reporter's buffer holds, line by line: the header written by
  \<^verbatim>\<open>writeheader\<close> (the field names) and the rows written by \<^verbatim>\<open>writerow\<close>. A
  \<^verbatim>\<open>DictWriter\<close> writes, for each field name in turn, the value that the row has under
  it; \<open>None\<close> stands for a field that the row does not have (the writer's \<^verbatim>\<open>restval\<close>).
  The encoding of a line as text is the work of Python's csv module and is not modelled.
\<close>

datatype 'v line = Header "string list" | Row "'v option list"

definition fieldnames :: "string list" where
  "fieldnames = [''Cost Center'', ''Transaction'', ''Stamp'', ''Account'', ''Identifier'', ''Duration'']"

definition writerow :: "string list \<Rightarrow> (string \<times> 'v) list \<Rightarrow> 'v line list \<Rightarrow> 'v line list" where
  "writerow names row buffer = buffer @ [Row (map (dict_get row) names)]"

definition get_reporter :: "'v line list" where
  "get_reporter = [] @ [Header fieldnames]"

text \<open>\<^verbatim>\<open>item[key]\<close>, which raises \<^verbatim>\<open>KeyError\<close> on a missing key.\<close>

definition getitem :: "(string \<times> 'v) list \<Rightarrow> string \<Rightarrow> error + 'v" where
  "getitem item k = (case dict_get item k of None \<Rightarrow> Inl (KeyError k) | Some v \<Rightarrow> Inr v)"

definition bind_error :: "error + 'a \<Rightarrow> ('a \<Rightarrow> error + 'b) \<Rightarrow> error + 'b" where
  "bind_error x f = (case x of Inl e \<Rightarrow> Inl e | Inr v \<Rightarrow> f v)"

text \<open>
  The row built by \<^verbatim>\<open>build_reports\<close> from an item, its six entries evaluated in the
  order of the source.
\<close>

definition make_row :: "(string \<times> 'v) list \<Rightarrow> error + (string \<times> 'v) list" where
  "make_row item =
     bind_error (getitem item ''account'') (\<lambda>a.
     bind_error (getitem item ''cost-center'') (\<lambda>c.
     bind_error (getitem item ''stamp'') (\<lambda>s.
     bind_error (getitem item ''transaction'') (\<lambda>t.
     bind_error (getitem item ''identifier'') (\<lambda>i.
     bind_error (getitem item ''duration'') (\<lambda>d.
       Inr [(''Account'', a), (''Cost Center'', c), (''Stamp'', s), (''Transaction'', t),
            (''Identifier'', i), (''Duration'', d)]))))))"

text \<open>
  The loop of \<^verbatim>\<open>build_reports\<close>. \<^verbatim>\<open>reports\<close> maps a cost center to its reporter; the
  reporter found under the label, or else a new one, gets the row and is stored under
  the label.
\<close>

fun build_reports_loop ::
  "('v \<times> 'v line list) list \<Rightarrow> 'v stored_record list \<Rightarrow> error + ('v \<times> 'v line list) list" where
  "build_reports_loop reports [] = Inr reports"
| "build_reports_loop reports (record # records) =
     (let item = rec_value record
      in bind_error (getitem item ''cost-center'') (\<lambda>lbl.
           let reporter = (case dict_get reports lbl of None \<Rightarrow> get_reporter | Some r \<Rightarrow> r)
           in bind_error (make_row item) (\<lambda>row.
                build_reports_loop (dict_set reports lbl (writerow fieldnames row reporter)) records)))"

definition build_reports :: "'v stored_record list \<Rightarrow> error + ('v \<times> 'v line list) list" where
  "build_reports records = build_reports_loop [] records"

text \<open>The cost center of a record, and the line that its row makes in a report.\<close>

definition cost_center :: "'v stored_record \<Rightarrow> 'v option" where
  "cost_center r = dict_get (rec_value r) ''cost-center''"

definition row_of :: "'v stored_record \<Rightarrow> 'v line" where
  "row_of r =
     Row (map (dict_get (rec_value r))
            [''cost-center'', ''transaction'', ''stamp'', ''account'', ''identifier'', ''duration''])"

text \<open>A record that carries the six fields of a report row.\<close>

definition reportable :: "'v stored_record \<Rightarrow> bool" where
  "reportable r =
     list_all (\<lambda>k. dict_get (rec_value r) k \<noteq> None)
       [''cost-center'', ''transaction'', ''stamp'', ''account'', ''identifier'', ''duration'']"

text \<open>The elements of a list without repetition, in the order of their first occurrence.\<close>

fun first_seen :: "'a list \<Rightarrow> 'a list" where
  "first_seen [] = []"
| "first_seen (x # xs) = x # filter (\<lambda>y. y \<noteq> x) (first_seen xs)"

section \<open>Fixtures of the test suite\<close>

text \<open>
  The mocked session \<^verbatim>\<open>valid_tags\<close> of tests/test\_account.py: the first request for
  tags is answered by a page of two tags with a token, the request with that token by a
  page of one tag.
\<close>

definition some_attributes :: "string \<Rightarrow> string \<Rightarrow> account_attributes" where
  "some_attributes ident status =
     \<lparr>Id = ident, Arn = ''arn:aws:some-arn'', Email = ''a@b.com'', Name = ''account-three'',
      Status = status\<rparr>"

definition valid_tags :: organizations where
  "valid_tags =
     \<lparr>list_tags_for_resource = (\<lambda>resource token.
        if token = None
        then \<lparr>Items = [(''account:owner'', ''a@b.com''), (''account:state'', ''vanilla'')],
              NextToken = Some ''token''\<rparr>
        else \<lparr>Items = [(''another_tag'', ''another_value'')], NextToken = None\<rparr>),
      list_accounts_for_parent = (\<lambda>parent token. \<lparr>Items = [], NextToken = None\<rparr>),
      describe_account = (\<lambda>ident. some_attributes ident ''ACTIVE''),
      tag_resource_calls = []\<rparr>"

text \<open>The mocked session \<^verbatim>\<open>invalid_owner\<close> of the same tests: one page, no token.\<close>

definition invalid_owner :: organizations where
  "invalid_owner =
     \<lparr>list_tags_for_resource = (\<lambda>resource token.
        \<lparr>Items = [(''account:owner'', ''John Snow''), (''account:state'', ''vanilla'')],
         NextToken = None\<rparr>),
      list_accounts_for_parent = (\<lambda>parent token. \<lparr>Items = [], NextToken = None\<rparr>),
      describe_account = (\<lambda>ident. some_attributes ident ''ACTIVE''),
      tag_resource_calls = []\<rparr>"

text \<open>
  An organization of one unit with the three accounts of \<^verbatim>\<open>test_list\<close>, listed in two
  pages: the first account is active and tagged \<^verbatim>\<open>released\<close>, the second is active and
  tagged \<^verbatim>\<open>assigned\<close>, the third is tagged \<^verbatim>\<open>released\<close> and suspended.
\<close>

definition three_accounts :: organizations where
  "three_accounts =
     \<lparr>list_tags_for_resource = (\<lambda>resource token.
        \<lparr>Items = [(''account:owner'', ''a@b.com''),
                  (''account:state'', if resource = ''234567890123'' then ''assigned'' else ''released'')],
         NextToken = None\<rparr>),
      list_accounts_for_parent = (\<lambda>parent token.
        if token = None
        then \<lparr>Items = [some_attributes ''123456789012'' ''ACTIVE'',
                        some_attributes ''234567890123'' ''ACTIVE''],
              NextToken = Some ''token''\<rparr>
        else \<lparr>Items = [some_attributes ''345678901234'' ''SUSPENDED''], NextToken = None\<rparr>),
      describe_account = (\<lambda>ident.
        some_attributes ident (if ident = ''345678901234'' then ''SUSPENDED'' else ''ACTIVE'')),
      tag_resource_calls = []\<rparr>"

definition live :: environ where
  "live = (\<lambda>name. if name = ''DRY_RUN'' then Some ''FALSE'' else None)"

definition dry_run :: environ where
  "dry_run = (\<lambda>name. if name = ''DRY_RUN'' then Some ''true'' else None)"

text \<open>
  Events of one account, and the engine after a \<^verbatim>\<open>CreatedAccount\<close> event delivered to
  an empty ledger when the clock read 100.
\<close>

definition created_event :: account_event where
  "created_event = \<lparr>label = ''CreatedAccount'', account = ''123456789012''\<rparr>"

definition released_event :: account_event where
  "released_event = \<lparr>label = ''ReleasedAccount'', account = ''123456789012''\<rparr>"

definition onboarding_open :: "real meter" where
  "onboarding_open = handle_created_event created_event 100 ''uid-1'' no_transaction"

text \<open>Five records over three cost centers, as the reporting scenario has them.\<close>

definition activity :: "string \<Rightarrow> string \<Rightarrow> string \<Rightarrow> string stored_record" where
  "activity day center ident =
     \<lparr>rec_hash = day, rec_range = ''08:00:00.000000'',
      rec_value = [(''begin'', ''1''), (''identifier'', ident), (''end'', ''5''),
                   (''duration'', ''4''), (''account'', ''123456789012''),
                   (''cost-center'', center), (''transaction'', ''on-boarding''),
                   (''stamp'', day @ ''T08:00:00.000000'')]\<rparr>"

definition five_days :: "string stored_record list" where
  "five_days =
     [activity ''2023-03-01'' ''Alpha'' ''a'', activity ''2023-03-02'' ''Bravo'' ''b'',
      activity ''2023-03-03'' ''Alpha'' ''c'', activity ''2023-03-04'' ''Charlie'' ''d'',
      activity ''2023-03-05'' ''Bravo'' ''e'']"

text \<open>
  The record that \<^verbatim>\<open>handle_record\<close> stores for a completion event of the metering
  engine: the payload of the event (begin, identifier, end, duration) and the stamp. And
  a record that has a cost center but no account.
\<close>

definition metered :: "string stored_record" where
  "metered =
     \<lparr>rec_hash = ''2023-03-01'', rec_range = ''08:00:00.000000'',
      rec_value = [(''begin'', ''100''), (''identifier'', ''uid-1''), (''end'', ''131''),
                   (''duration'', ''31''), (''stamp'', ''2023-03-01T08:00:00.000000'')]\<rparr>"

definition unaccounted :: "string stored_record" where
  "unaccounted =
     \<lparr>rec_hash = ''2023-03-01'', rec_range = ''08:00:00.000000'',
      rec_value = [(''cost-center'', ''Alpha''), (''transaction'', ''on-boarding''),
                   (''stamp'', ''2023-03-01T08:00:00.000000''), (''identifier'', ''uid-1''),
                   (''duration'', ''31'')]\<rparr>"

section \<open>Facts about dictionaries\<close>

lemma dict_get_dict_set:
  "dict_get (dict_set d k v) k' = (if k' = k then Some v else dict_get d k')"
  by (induction d) (auto simp: dict_get_def)

lemma keys_dict_set:
  "map fst (dict_set d k v) = (if k \<in> fst ` set d then map fst d else map fst d @ [k])"
  by (induction d) force+

lemma keyset_dict_set: "fst ` set (dict_set d k v) = insert k (fst ` set d)"
proof -
  have "set (map fst (dict_set d k v)) = insert k (set (map fst d))"
    unfolding keys_dict_set by auto
  then show ?thesis by simp
qed

lemma dict_set_fresh: "k \<notin> fst ` set d \<Longrightarrow> dict_set d k v = d @ [(k, v)]"
  by (induction d) auto

lemma collect_tags_get:
  "dict_get (collect_tags ts items) k =
     (case map_of (rev items) k of None \<Rightarrow> dict_get ts k | Some v \<Rightarrow> Some v)"
proof (induction items arbitrary: ts)
  case Nil
  show ?case by simp
next
  case (Cons item items)
  show ?case
    by (cases item) (auto simp: Cons.IH dict_get_dict_set map_add_def split: option.splits)
qed

lemma collect_tags_keys:
  "map fst (collect_tags ts items) =
     map fst ts @ filter (\<lambda>k. k \<notin> fst ` set ts) (first_seen (map fst items))"
proof (induction items arbitrary: ts)
  case Nil
  show ?case by simp
next
  case (Cons item items)
  have eq: "filter (\<lambda>k. k \<notin> fst ` set ts) (filter (\<lambda>y. y \<noteq> fst item) xs) =
            filter (\<lambda>k. k \<notin> insert (fst item) (fst ` set ts)) xs" for xs
    by (induction xs) auto
  show ?case
    by (simp add: Cons.IH keys_dict_set keyset_dict_set eq insert_absorb)
qed

lemma collect_tags_distinct:
  "distinct (map fst (ts @ items)) \<Longrightarrow> collect_tags ts items = ts @ items"
proof (induction items arbitrary: ts)
  case Nil
  show ?case by simp
next
  case (Cons item items)
  from Cons.prems have fresh: "fst item \<notin> fst ` set ts" by auto
  then have d: "dict_set ts (fst item) (snd item) = ts @ [item]"
    by (simp add: dict_set_fresh)
  from Cons.prems have "distinct (map fst ((ts @ [item]) @ items))" by auto
  from Cons.IH[OF this] d show ?case by simp
qed

lemma iterate_tags_pages:
  "iterate_tags fuel c acct token = map_option (\<lambda>chunks. concat (map Items chunks)) (tag_pages fuel c acct token)"
  by (induction fuel arbitrary: token) (auto simp: Let_def split: option.splits)

section \<open>The matcher decides the language of the pattern\<close>

lemma nullable_texts: "nullable r \<longleftrightarrow> [] \<in> texts r"
  by (induction r) (auto intro: repeated.none)

lemma repeated_Cons_split:
  assumes "x \<in> repeated A" and "x = c # w"
  shows "\<exists>u v. w = u @ v \<and> c # u \<in> A \<and> v \<in> repeated A"
  using assms
proof (induction rule: repeated.induct)
  case none
  then show ?case by simp
next
  case (more u v)
  show ?case
  proof (cases u)
    case Nil
    with more show ?thesis by simp
  next
    case (Cons a u')
    with more.prems have "a = c" and "w = u' @ v" by simp_all
    with Cons more.hyps show ?thesis by blast
  qed
qed

lemma repeated_Cons:
  "c # w \<in> repeated A \<longleftrightarrow> (\<exists>u v. w = u @ v \<and> c # u \<in> A \<and> v \<in> repeated A)"
proof
  assume "c # w \<in> repeated A"
  then show "\<exists>u v. w = u @ v \<and> c # u \<in> A \<and> v \<in> repeated A"
    by (rule repeated_Cons_split) simp
next
  assume "\<exists>u v. w = u @ v \<and> c # u \<in> A \<and> v \<in> repeated A"
  then obtain u v where "w = u @ v" "c # u \<in> A" "v \<in> repeated A" by blast
  then show "c # w \<in> repeated A"
    using repeated.more [of "c # u" A v] by simp
qed

lemma deriv_texts: "w \<in> texts (deriv c r) \<longleftrightarrow> c # w \<in> texts r"
proof (induction r arbitrary: w)
  case (Seq r s)
  show ?case
  proof (cases "nullable r")
    case True
    then have e: "[] \<in> texts r" by (simp add: nullable_texts)
    show ?thesis
      using True e Seq
      by (auto simp: Cons_eq_append_conv)
  next
    case False
    then have e: "[] \<notin> texts r" by (simp add: nullable_texts)
    show ?thesis
      using False e Seq
      by (auto simp: Cons_eq_append_conv)
  qed
next
  case (Star r)
  show ?case
    by (auto simp: repeated_Cons Star)
qed auto

lemma fullmatch_texts: "fullmatch r s \<longleftrightarrow> s \<in> texts r"
  unfolding fullmatch_def
  by (induction s arbitrary: r) (simp_all add: nullable_texts deriv_texts)

section \<open>Properties of Account.move\<close>

text \<open>
  Claim C4. For every account and every argument that is not a member of the State
  enumeration (a raw string, None, or an object that carries a valid state string in a
  value attribute), whatever the environment, move raises a ValueError and the client is
  left as it was: the record of tag_resource calls has not grown, no tag mutation is
  made.
\<close>

theorem move_rejects_non_member:
  "\<not> isinstance_State state \<Longrightarrow>
     move env acct state c = (Inl (ValueError (''Unexpected state type '' @ format_obj state)), c) \<and>
     tag_resource_calls (snd (move env acct state c)) = tag_resource_calls c"
  by (simp add: move_def)

theorem move_rejects_non_member_witness:
  "\<not> isinstance_State (PyStr ''expired'') \<and>
   move live ''0123456789012'' (PyStr ''expired'') valid_tags =
     (Inl (ValueError ''Unexpected state type expired''), valid_tags) \<and>
   tag_resource_calls (snd (move live ''0123456789012'' (PyStr ''expired'') valid_tags)) = []"
  using move_rejects_non_member [of "PyStr ''expired''" live "''0123456789012''" valid_tags]
  by (simp add: valid_tags_def)

text \<open>
  Claim C5. For every account and every member S of State: when the environment
  variable DRY_RUN is "FALSE", move returns normally after exactly one tag_resource
  call, which sets the tag account:state of the account to the value of S; when
  DRY_RUN has any other value or is unset, move returns normally and makes no
  tag_resource call.
\<close>

theorem move_tags_once_unless_dry_run:
  "move env acct (Member s) c =
     (Inr (),
      if env ''DRY_RUN'' = Some ''FALSE''
      then c\<lparr>tag_resource_calls := tag_resource_calls c @ [(acct, [(''account:state'', state_value s)])]\<rparr>
      else c) \<and>
   length (tag_resource_calls (snd (move env acct (Member s) c))) =
     length (tag_resource_calls c) + (if env ''DRY_RUN'' = Some ''FALSE'' then 1 else 0)"
  by (simp add: move_def tag_resource_def)

theorem move_tags_once_unless_dry_run_witness:
  "tag_resource_calls (snd (move live ''0123456789012'' (Member RELEASED) valid_tags)) =
     [(''0123456789012'', [(''account:state'', ''released'')])] \<and>
   tag_resource_calls (snd (move dry_run ''0123456789012'' (Member RELEASED) valid_tags)) = [] \<and>
   tag_resource_calls (snd (move (\<lambda>name. None) ''0123456789012'' (Member RELEASED) valid_tags)) = []"
  using move_tags_once_unless_dry_run [of live "''0123456789012''" RELEASED valid_tags]
    move_tags_once_unless_dry_run [of dry_run "''0123456789012''" RELEASED valid_tags]
    move_tags_once_unless_dry_run [of "\<lambda>name. None" "''0123456789012''" RELEASED valid_tags]
  by (simp add: live_def dry_run_def valid_tags_def)

text \<open>
  Claim C10. In dry-run mode (DRY_RUN unset or different from "FALSE") move still
  raises the ValueError for every argument that is not a member of State, and returns
  normally for a member; in both cases no tag_resource call is made. The type check
  comes before the dry-run branch: dry-run suppresses the mutation only.
\<close>

theorem move_dry_run_still_rejects:
  "env ''DRY_RUN'' \<noteq> Some ''FALSE'' \<Longrightarrow>
     fst (move env acct state c) =
       (if isinstance_State state then Inr ()
        else Inl (ValueError (''Unexpected state type '' @ format_obj state))) \<and>
     snd (move env acct state c) = c"
  by (cases state) (simp_all add: move_def)

theorem move_dry_run_still_rejects_witness:
  "dry_run ''DRY_RUN'' \<noteq> Some ''FALSE'' \<and>
   move dry_run ''0123456789012'' (Namespace ''released'') valid_tags =
     (Inl (ValueError (''Unexpected state type namespace(value='' @ [CHR 0x27] @ ''released'' @ [CHR 0x27] @ '')'')), valid_tags) \<and>
   move dry_run ''0123456789012'' (Member RELEASED) valid_tags = (Inr (), valid_tags)"
proof -
  have h: "dry_run ''DRY_RUN'' \<noteq> Some ''FALSE''" by (simp add: dry_run_def)
  show ?thesis
    using h move_dry_run_still_rejects [of dry_run "''0123456789012''" "Namespace ''released''" valid_tags]
      move_dry_run_still_rejects [of dry_run "''0123456789012''" "Member RELEASED" valid_tags]
    by (simp add: prod_eq_iff)
qed

section \<open>Properties of the tags of an account\<close>

lemma valid_tags_listing:
  "iterate_tags 2 valid_tags ''123456789012'' None =
     Some [(''account:owner'', ''a@b.com''), (''account:state'', ''vanilla''),
           (''another_tag'', ''another_value'')]"
  by (simp add: valid_tags_def numeral_2_eq_2)

lemma valid_tags_pages:
  "tag_pages 2 valid_tags ''123456789012'' None =
     Some [\<lparr>Items = [(''account:owner'', ''a@b.com''), (''account:state'', ''vanilla'')], NextToken = Some ''token''\<rparr>,
           \<lparr>Items = [(''another_tag'', ''another_value'')], NextToken = None\<rparr>]"
  by (simp add: valid_tags_def numeral_2_eq_2)

lemma valid_tags_list_tags:
  "list_tags 2 valid_tags ''123456789012'' =
     Some [(''account:owner'', ''a@b.com''), (''account:state'', ''vanilla''),
           (''another_tag'', ''another_value'')]"
  by (simp add: list_tags_def valid_tags_listing)

lemma owner_matches: "fullmatch VALID_EMAIL ''a@b.com''"
  by (simp add: fullmatch_def VALID_EMAIL_def Plus_def AtLeast2_def Lit_def alnum_def in_class_def)

lemma invalid_owner_list_tags:
  "list_tags 1 invalid_owner ''123456789012'' =
     Some [(''account:owner'', ''John Snow''), (''account:state'', ''vanilla'')]"
  by (simp add: list_tags_def invalid_owner_def)

lemma owner_does_not_match: "\<not> fullmatch VALID_EMAIL ''John Snow''"
  by (simp add: fullmatch_def VALID_EMAIL_def Plus_def AtLeast2_def Lit_def alnum_def in_class_def)

text \<open>
  Claim C3. Whenever list_tags returns a mapping for the account, validate_tags returns
  normally if and only if that mapping has a value under account:owner that the owner
  pattern matches in full and a value under account:state that is one of vanilla,
  assigned, released, expired; in every other case it raises a ValueError.
\<close>

theorem validate_tags_iff:
  assumes "list_tags fuel c acct = Some ts"
  shows "(validate_tags fuel c acct = Some (Inr ()) \<longleftrightarrow>
           (\<exists>owner state. dict_get ts ''account:owner'' = Some owner \<and>
              fullmatch VALID_EMAIL owner \<and>
              dict_get ts ''account:state'' = Some state \<and>
              state \<in> {''vanilla'', ''assigned'', ''released'', ''expired''})) \<and>
         (validate_tags fuel c acct \<noteq> Some (Inr ()) \<longrightarrow>
           (\<exists>msg. validate_tags fuel c acct = Some (Inl (ValueError msg))))"
  using assms
  by (auto simp: validate_tags_def validate_owner_def validate_state_def all_states_def
           split: option.splits)

theorem validate_tags_iff_witness:
  "list_tags 2 valid_tags ''123456789012'' =
     Some [(''account:owner'', ''a@b.com''), (''account:state'', ''vanilla''),
           (''another_tag'', ''another_value'')] \<and>
   validate_tags 2 valid_tags ''123456789012'' = Some (Inr ()) \<and>
   list_tags 1 invalid_owner ''123456789012'' =
     Some [(''account:owner'', ''John Snow''), (''account:state'', ''vanilla'')] \<and>
   (\<exists>msg. validate_tags 1 invalid_owner ''123456789012'' = Some (Inl (ValueError msg)))"
proof -
  have ok: "validate_tags 2 valid_tags ''123456789012'' = Some (Inr ())"
    using validate_tags_iff [OF valid_tags_list_tags] owner_matches
    by (simp add: dict_get_def)
  have bad: "\<exists>msg. validate_tags 1 invalid_owner ''123456789012'' = Some (Inl (ValueError msg))"
    using validate_tags_iff [OF invalid_owner_list_tags] owner_does_not_match
    by (simp add: dict_get_def)
  from valid_tags_list_tags ok invalid_owner_list_tags bad show ?thesis
    by blast
qed

text \<open>
  Claim C9. list_tags merges the pages of the tag listing into one mapping: the value of
  a key is the one of its last occurrence over the pages taken in order (a later page
  overwrites an earlier one), and the keys come in the order in which they are first
  seen. When no key occurs twice, the mapping is the entries of the first page, then
  those of the second, and so on: for the two pages [owner, state] and [other] it has
  exactly these three entries in this order.
\<close>

theorem list_tags_merges:
  assumes "tag_pages fuel c acct None = Some chunks"
  shows "\<exists>ts. list_tags fuel c acct = Some ts \<and>
           (\<forall>k. dict_get ts k = map_of (rev (concat (map Items chunks))) k) \<and>
           map fst ts = first_seen (map fst (concat (map Items chunks))) \<and>
           (distinct (map fst (concat (map Items chunks))) \<longrightarrow> ts = concat (map Items chunks))"
proof -
  let ?items = "concat (map Items chunks)"
  have it: "iterate_tags fuel c acct None = Some ?items"
    using assms by (simp add: iterate_tags_pages)
  then have lt: "list_tags fuel c acct = Some (collect_tags [] ?items)"
    by (simp add: list_tags_def)
  have get: "dict_get (collect_tags [] ?items) k = map_of (rev ?items) k" for k
    using collect_tags_get [of "[]" ?items k] by (simp add: dict_get_def split: option.splits)
  have keys: "map fst (collect_tags [] ?items) = first_seen (map fst ?items)"
    using collect_tags_keys [of "[]" ?items] by simp
  have dist: "distinct (map fst ?items) \<Longrightarrow> collect_tags [] ?items = ?items"
    using collect_tags_distinct [of "[]" ?items] by simp
  from lt get keys dist show ?thesis by blast
qed

theorem list_tags_merges_witness:
  "list_tags 2 valid_tags ''123456789012'' =
     Some [(''account:owner'', ''a@b.com''), (''account:state'', ''vanilla''),
           (''another_tag'', ''another_value'')]"
  using list_tags_merges [OF valid_tags_pages]
  by auto

section \<open>Properties of the maintenance scanner\<close>

text \<open>
  The value looked up in the tags is a string or None, and \<^verbatim>\<open>State.RELEASED\<close> is
  neither: the comparison \<^verbatim>\<open>!= State.RELEASED\<close> holds for every account, so every
  active account is skipped as well.
\<close>

lemma tags_get_never_member: "tags_get ts k \<noteq> Member s"
  by (simp add: tags_get_def split: option.splits)

lemma expire_account_skips:
  "expire_account fuel env acct c = Some r \<Longrightarrow> r = (Inr (), c)"
  by (auto simp: expire_account_def tags_get_never_member split: option.splits if_splits)

lemma expire_accounts_skip:
  "expire_accounts fuel env accts c = Some r \<Longrightarrow> r = (Inr (), c)"
proof (induction accts)
  case Nil
  then show ?case by simp
next
  case (Cons a accts)
  from Cons.prems obtain r1 where r1: "expire_account fuel env a c = Some r1"
    by (auto split: option.splits)
  then have "r1 = (Inr (), c)" by (rule expire_account_skips)
  with r1 Cons show ?case by simp
qed

lemma expire_units_skip:
  "expire_units fuel env units c = Some r \<Longrightarrow> r = (Inr (), c)"
proof (induction units)
  case Nil
  then show ?case by simp
next
  case (Cons u units)
  from Cons.prems obtain accts where a: "list_accounts fuel c u None = Some accts"
    by (auto split: option.splits)
  with Cons.prems obtain r1 where r1: "expire_accounts fuel env accts c = Some r1"
    by (auto split: option.splits)
  then have "r1 = (Inr (), c)" by (rule expire_accounts_skip)
  with a r1 Cons show ?case by simp
qed

lemma handle_event_never_moves:
  "handle_event fuel env units c = Some (outcome, c') \<Longrightarrow>
     outcome = Inr () \<and> tag_resource_calls c' = tag_resource_calls c"
  using expire_units_skip [of fuel env units c "(outcome, c')"]
  by (simp add: handle_event_def)

lemma three_accounts_listing:
  "list_accounts 2 three_accounts ''ou-parent'' None =
     Some [''123456789012'', ''234567890123'', ''345678901234'']"
  by (simp add: three_accounts_def some_attributes_def numeral_2_eq_2)

lemma three_accounts_first:
  "describe 2 three_accounts ''123456789012'' =
     Some \<lparr>item_id = ''123456789012'', item_arn = ''arn:aws:some-arn'', item_email = ''a@b.com'',
           item_name = ''account-three'', is_active = True,
           tags = [(''account:owner'', ''a@b.com''), (''account:state'', ''released'')]\<rparr>"
  by (simp add: describe_def list_tags_def three_accounts_def some_attributes_def numeral_2_eq_2)

lemma three_accounts_second:
  "describe 2 three_accounts ''234567890123'' =
     Some \<lparr>item_id = ''234567890123'', item_arn = ''arn:aws:some-arn'', item_email = ''a@b.com'',
           item_name = ''account-three'', is_active = True,
           tags = [(''account:owner'', ''a@b.com''), (''account:state'', ''assigned'')]\<rparr>"
  by (simp add: describe_def list_tags_def three_accounts_def some_attributes_def numeral_2_eq_2)

lemma three_accounts_third:
  "describe 2 three_accounts ''345678901234'' =
     Some \<lparr>item_id = ''345678901234'', item_arn = ''arn:aws:some-arn'', item_email = ''a@b.com'',
           item_name = ''account-three'', is_active = False,
           tags = [(''account:owner'', ''a@b.com''), (''account:state'', ''released'')]\<rparr>"
  by (simp add: describe_def list_tags_def three_accounts_def some_attributes_def numeral_2_eq_2)

text \<open>
  Claim C2. The scanner is to move every active account whose state tag is released to
  the expired state: one move for the three accounts of which one is active and
  released. Run live on these three accounts, it returns with the client unchanged: no
  tag_resource call is recorded, although the first account is active, carries the value
  of State.RELEASED under account:state, and a move of it to State.EXPIRED would have
  recorded a call.
\<close>

theorem handle_event_expires_nothing:
  "handle_event 2 live [''ou-parent''] three_accounts = Some (Inr (), three_accounts) \<and>
   tag_resource_calls three_accounts = [] \<and>
   (\<exists>item. describe 2 three_accounts ''123456789012'' = Some item \<and> is_active item \<and>
      dict_get (tags item) ''account:state'' = Some (state_value RELEASED)) \<and>
   move live ''123456789012'' (Member EXPIRED) three_accounts \<noteq> (Inr (), three_accounts)"
proof -
  have 1: "expire_account 2 live ''123456789012'' three_accounts = Some (Inr (), three_accounts)"
    by (simp add: expire_account_def three_accounts_first tags_get_def dict_get_def)
  have 2: "expire_account 2 live ''234567890123'' three_accounts = Some (Inr (), three_accounts)"
    by (simp add: expire_account_def three_accounts_second tags_get_def dict_get_def)
  have 3: "expire_account 2 live ''345678901234'' three_accounts = Some (Inr (), three_accounts)"
    by (simp add: expire_account_def three_accounts_third)
  have run: "handle_event 2 live [''ou-parent''] three_accounts = Some (Inr (), three_accounts)"
    by (simp add: handle_event_def three_accounts_listing 1 2 3)
  have calls: "tag_resource_calls three_accounts = []"
    by (simp add: three_accounts_def)
  have tagged: "\<exists>item. describe 2 three_accounts ''123456789012'' = Some item \<and> is_active item \<and>
      dict_get (tags item) ''account:state'' = Some (state_value RELEASED)"
    by (simp add: three_accounts_first dict_get_def)
  have "tag_resource_calls (snd (move live ''123456789012'' (Member EXPIRED) three_accounts)) \<noteq> []"
    by (simp add: move_def live_def tag_resource_def)
  with calls have mv: "move live ''123456789012'' (Member EXPIRED) three_accounts \<noteq> (Inr (), three_accounts)"
    by auto
  from run calls tagged mv show ?thesis by blast
qed

section \<open>Properties of the metering engine\<close>

lemma kinds_differ: "''Maintenance '' @ x \<noteq> ''OnBoarding '' @ y"
  by simp

lemma retrieve_assign:
  "retrieve (assign key val st) key' = (if key' = key then val else retrieve st key')"
  by (simp add: retrieve_def assign_def)

lemma retrieve_emit: "retrieve (emit_spa_event lbl p st) key = retrieve st key"
  by (simp add: retrieve_def emit_spa_event_def)

lemma emitted_assign: "emitted (assign key val st) = emitted st"
  by (simp add: assign_def)

lemma emitted_emit: "emitted (emit_spa_event lbl p st) = emitted st @ [(lbl, p)]"
  by (simp add: emit_spa_event_def)

lemma started_nonempty: "started t \<Longrightarrow> t \<noteq> []"
  by (auto simp: started_def dict_get_def)

lemma ledger_started_retrieve: "ledger_started st \<Longrightarrow> retrieve st key = Some t \<Longrightarrow> started t"
  by (auto simp: ledger_started_def retrieve_def)

lemma ledger_started_assign:
  "ledger_started st \<Longrightarrow> started t \<Longrightarrow> ledger_started (assign key (Some t) st)"
  by (auto simp: ledger_started_def assign_def)

lemma ledger_started_delete:
  "ledger_started st \<Longrightarrow> ledger_started (assign key None st)"
  by (auto simp: ledger_started_def assign_def)

lemma ledger_started_emit: "ledger_started st \<Longrightarrow> ledger_started (emit_spa_event lbl p st)"
  by (simp add: ledger_started_def emit_spa_event_def)

lemma ledger_started_empty: "ledger_started no_transaction"
  by (simp add: ledger_started_def no_transaction_def)

lemma started_fresh: "started [(''begin'', Num now), (''identifier'', Str uid)]"
  by (simp add: started_def dict_get_def)

lemma ledger_started_created:
  "ledger_started st \<Longrightarrow> ledger_started (handle_created_event input now uid st)"
  by (simp add: handle_created_event_def ledger_started_assign started_fresh)

lemma ledger_started_expired:
  "ledger_started st \<Longrightarrow> ledger_started (handle_expired_event input now uid st)"
  by (simp add: handle_expired_event_def ledger_started_assign started_fresh)

text \<open>What an update does to a transaction that the engine has started.\<close>

lemma update_started:
  assumes "retrieve st key = Some t" and "started t"
  shows "\<exists>p. update_transaction key lbl now st =
               (Inr (), emit_spa_event lbl p (assign key None st)) \<and> completes t now p"
proof -
  from assms(2) obtain b u where b: "dict_get t ''begin'' = Some (Num b)"
    and u: "dict_get t ''identifier'' = Some (Str u)"
    by (auto simp: started_def split: option.splits jvalue.splits)
  let ?p = "dict_set (dict_set t ''end'' (Num now)) ''duration'' (Num (now - b))"
  have ne: "t \<noteq> []" using assms(2) by (rule started_nonempty)
  have run: "update_transaction key lbl now st = (Inr (), emit_spa_event lbl ?p (assign key None st))"
    using assms(1) ne b by (simp add: update_transaction_def dict_get_dict_set Let_def)
  have "completes t now ?p"
    using b u by (simp add: completes_def dict_get_dict_set)
  with run show ?thesis by blast
qed

lemma update_absent:
  "retrieve st key = None \<Longrightarrow> update_transaction key lbl now st = (Inr (), st)"
  by (simp add: update_transaction_def)

lemma update_deletes:
  assumes "retrieve st key = Some t" and "t \<noteq> []"
  shows "retrieve (snd (update_transaction key lbl now st)) key = None"
  using assms
  by (auto simp: update_transaction_def Let_def retrieve_assign retrieve_emit dict_get_dict_set
           split: option.splits jvalue.splits)

lemma ledger_started_update:
  "ledger_started st \<Longrightarrow> ledger_started (snd (update_transaction key lbl now st))"
  by (auto simp: update_transaction_def Let_def ledger_started_delete ledger_started_emit
           split: option.splits jvalue.splits)

lemma journal_assign: "journal (assign key val st) = journal st @ [Assigned key val]"
  by (simp add: assign_def)

lemma journal_emit: "journal (emit_spa_event lbl p st) = journal st @ [Emitted lbl p]"
  by (simp add: emit_spa_event_def)

text \<open>
  One update on a ledger of started transactions: it returns normally; when the record
  is there it makes two calls, the deletion and then the emission, and the record is
  gone; when the record is absent it makes no call.
\<close>

lemma update_step:
  assumes inv: "ledger_started st"
  obtains es js st' where
    "update_transaction key lbl now st = (Inr (), st')"
    "emitted st' = emitted st @ es"
    "journal st' = journal st @ js"
    "retrieve st' key = None"
    "\<And>key'. key' \<noteq> key \<Longrightarrow> retrieve st' key' = retrieve st key'"
    "ledger_started st'"
    "case retrieve st key of
       None \<Rightarrow> es = [] \<and> js = []
     | Some t \<Rightarrow> \<exists>p. es = [(lbl, p)] \<and> js = [Assigned key None, Emitted lbl p] \<and>
                    completes t now p"
proof (cases "retrieve st key")
  case None
  then have "update_transaction key lbl now st = (Inr (), st)" by (rule update_absent)
  then show ?thesis
    using None inv by (intro that [of st "[]" "[]"]) simp_all
next
  case (Some t)
  with inv have "started t" by (rule ledger_started_retrieve)
  from update_started [OF Some this, of lbl now] obtain p where
    run: "update_transaction key lbl now st = (Inr (), emit_spa_event lbl p (assign key None st))"
    and c: "completes t now p" by blast
  let ?st' = "emit_spa_event lbl p (assign key None st)"
  show ?thesis
  proof (rule that [of ?st' "[(lbl, p)]" "[Assigned key None, Emitted lbl p]"])
    show "update_transaction key lbl now st = (Inr (), ?st')" by (rule run)
    show "emitted ?st' = emitted st @ [(lbl, p)]"
      by (simp add: emitted_emit emitted_assign)
    show "journal ?st' = journal st @ [Assigned key None, Emitted lbl p]"
      by (simp add: journal_emit journal_assign)
    show "retrieve ?st' key = None"
      by (simp add: retrieve_emit retrieve_assign)
    show "retrieve ?st' key' = retrieve st key'" if "key' \<noteq> key" for key'
      using that by (simp add: retrieve_emit retrieve_assign)
    show "ledger_started ?st'"
      using inv by (simp add: ledger_started_emit ledger_started_delete)
    show "case retrieve st key of
            None \<Rightarrow> [(lbl, p)] = [] \<and> [Assigned key None, Emitted lbl p] = []
          | Some t \<Rightarrow> \<exists>pa. [(lbl, p)] = [(lbl, pa)] \<and>
                         [Assigned key None, Emitted lbl p] = [Assigned key None, Emitted lbl pa] \<and>
                         completes t now pa"
      using Some c by simp
  qed
qed

text \<open>
  One delivery of a \<^verbatim>\<open>ReleasedAccount\<close> event through \<^verbatim>\<open>handle_account_event\<close> to a
  ledger of started transactions: the maintenance update, then the onboarding update.
\<close>

lemma released_delivery:
  assumes lbl: "label input = ''ReleasedAccount''" and inv: "ledger_started st"
  obtains ms os mj oj st' where
    "handle_account_event input now1 now2 uid st =
       (Inr (''[OK] '' @ label input @ '' '' @ account input), st')"
    "emitted st' = emitted st @ ms @ os"
    "journal st' = journal st @ mj @ oj"
    "retrieve st' (''Maintenance '' @ account input) = None"
    "retrieve st' (''OnBoarding '' @ account input) = None"
    "ledger_started st'"
    "case retrieve st (''Maintenance '' @ account input) of
       None \<Rightarrow> ms = [] \<and> mj = []
     | Some t \<Rightarrow>
         \<exists>p. ms = [(''SuccessfulMaintenanceEvent'', p)] \<and>
             mj = [Assigned (''Maintenance '' @ account input) None,
                   Emitted ''SuccessfulMaintenanceEvent'' p] \<and>
             completes t now1 p"
    "case retrieve st (''OnBoarding '' @ account input) of
       None \<Rightarrow> os = [] \<and> oj = []
     | Some t \<Rightarrow>
         \<exists>p. os = [(''SuccessfulOnBoardingEvent'', p)] \<and>
             oj = [Assigned (''OnBoarding '' @ account input) None,
                   Emitted ''SuccessfulOnBoardingEvent'' p] \<and>
             completes t now2 p"
proof -
  let ?mk = "''Maintenance '' @ account input" and ?ok = "''OnBoarding '' @ account input"
  let ?ml = "''SuccessfulMaintenanceEvent''" and ?ol = "''SuccessfulOnBoardingEvent''"
  have ne: "?ok \<noteq> ?mk" and ne': "?mk \<noteq> ?ok" by simp_all
  obtain ms mj st1 where
    m: "update_transaction ?mk ?ml now1 st = (Inr (), st1)"
    and m_em: "emitted st1 = emitted st @ ms"
    and m_jo: "journal st1 = journal st @ mj"
    and m_del: "retrieve st1 ?mk = None"
    and m_other: "\<And>key'. key' \<noteq> ?mk \<Longrightarrow> retrieve st1 key' = retrieve st key'"
    and inv1: "ledger_started st1"
    and m_case: "case retrieve st ?mk of None \<Rightarrow> ms = [] \<and> mj = []
                 | Some t \<Rightarrow> \<exists>p. ms = [(?ml, p)] \<and> mj = [Assigned ?mk None, Emitted ?ml p] \<and>
                                completes t now1 p"
    by (rule update_step [OF inv, of ?mk ?ml now1], rule that; assumption)
  obtain os oj st2 where
    o: "update_transaction ?ok ?ol now2 st1 = (Inr (), st2)"
    and o_em: "emitted st2 = emitted st1 @ os"
    and o_jo: "journal st2 = journal st1 @ oj"
    and o_del: "retrieve st2 ?ok = None"
    and o_other: "\<And>key'. key' \<noteq> ?ok \<Longrightarrow> retrieve st2 key' = retrieve st1 key'"
    and inv2: "ledger_started st2"
    and o_case: "case retrieve st1 ?ok of None \<Rightarrow> os = [] \<and> oj = []
                 | Some t \<Rightarrow> \<exists>p. os = [(?ol, p)] \<and> oj = [Assigned ?ok None, Emitted ?ol p] \<and>
                                completes t now2 p"
    by (rule update_step [OF inv1, of ?ok ?ol now2], rule that; assumption)
  have released: "handle_released_event input now1 now2 st = (Inr (), st2)"
    using m o
    by (simp add: handle_released_event_def update_maintenance_transaction_def
          update_onboarding_transaction_def)
  have run: "handle_account_event input now1 now2 uid st =
             (Inr (''[OK] '' @ label input @ '' '' @ account input), st2)"
    using lbl released by (simp add: handle_account_event_def)
  have em: "emitted st2 = emitted st @ ms @ os"
    by (simp add: o_em m_em)
  have jo: "journal st2 = journal st @ mj @ oj"
    by (simp add: o_jo m_jo)
  have "retrieve st1 ?ok = retrieve st ?ok" by (rule m_other [OF ne])
  with o_case have o_case': "case retrieve st ?ok of None \<Rightarrow> os = [] \<and> oj = []
                 | Some t \<Rightarrow> \<exists>p. os = [(?ol, p)] \<and> oj = [Assigned ?ok None, Emitted ?ol p] \<and>
                                completes t now2 p" by simp
  have "retrieve st2 ?mk = retrieve st1 ?mk" by (rule o_other [OF ne'])
  with m_del have del: "retrieve st2 ?mk = None" by simp
  from run em jo del o_del inv2 m_case o_case' show ?thesis by (rule that)
qed

lemma count_emitted_append:
  "emitted st' = emitted st @ new \<Longrightarrow>
     count_emitted lbl st' = count_emitted lbl st + length (filter (\<lambda>ev. fst ev = lbl) new)"
  by (simp add: count_emitted_def)

lemma onboarding_open_started: "ledger_started onboarding_open"
  unfolding onboarding_open_def by (rule ledger_started_created [OF ledger_started_empty])

lemma onboarding_open_ledger:
  "retrieve onboarding_open (''Maintenance '' @ account released_event) = None"
  "retrieve onboarding_open (''OnBoarding '' @ account released_event) =
     Some [(''begin'', Num 100), (''identifier'', Str ''uid-1'')]"
  "emitted onboarding_open = []"
  "journal onboarding_open =
     [Assigned ''OnBoarding 123456789012'' (Some [(''begin'', Num 100), (''identifier'', Str ''uid-1'')])]"
  by (simp_all add: onboarding_open_def handle_created_event_def created_event_def
        released_event_def no_transaction_def assign_def retrieve_def Let_def)

lemma released_event_label: "label released_event = ''ReleasedAccount''"
  by (simp add: released_event_def)

lemma released_event_text:
  "''[OK] '' @ label released_event @ '' '' @ account released_event =
     ''[OK] ReleasedAccount 123456789012''"
  by (simp add: released_event_def)

text \<open>
  Claim C6. On a ReleasedAccount event for an account, delivered to the engine
  (handle_account_event) with every record of the ledger a transaction started by the
  engine: the call returns normally, and what it emits is, in this order, one
  SuccessfulMaintenanceEvent if the Maintenance record of the account is in the ledger
  and one SuccessfulOnBoardingEvent if its OnBoarding record is; the payload has the
  begin and the identifier of the record, the reading of the clock as end, and
  duration = end - begin. For a kind whose record is absent nothing is emitted and no
  error is raised.
\<close>

theorem released_emits_completion_per_kind:
  assumes "label input = ''ReleasedAccount''" and "ledger_started st"
  shows "\<exists>ms os st'.
           handle_account_event input now1 now2 uid st =
             (Inr (''[OK] '' @ label input @ '' '' @ account input), st') \<and>
           emitted st' = emitted st @ ms @ os \<and>
           (case retrieve st (''Maintenance '' @ account input) of
              None \<Rightarrow> ms = []
            | Some t \<Rightarrow> \<exists>p. ms = [(''SuccessfulMaintenanceEvent'', p)] \<and> completes t now1 p) \<and>
           (case retrieve st (''OnBoarding '' @ account input) of
              None \<Rightarrow> os = []
            | Some t \<Rightarrow> \<exists>p. os = [(''SuccessfulOnBoardingEvent'', p)] \<and> completes t now2 p)"
proof -
  obtain ms os mj oj st' where
    run: "handle_account_event input now1 now2 uid st =
             (Inr (''[OK] '' @ label input @ '' '' @ account input), st')"
    and em: "emitted st' = emitted st @ ms @ os"
    and "journal st' = journal st @ mj @ oj"
    and "retrieve st' (''Maintenance '' @ account input) = None"
    and "retrieve st' (''OnBoarding '' @ account input) = None"
    and "ledger_started st'"
    and mc: "case retrieve st (''Maintenance '' @ account input) of
              None \<Rightarrow> ms = [] \<and> mj = []
            | Some t \<Rightarrow>
                \<exists>p. ms = [(''SuccessfulMaintenanceEvent'', p)] \<and>
                    mj = [Assigned (''Maintenance '' @ account input) None,
                          Emitted ''SuccessfulMaintenanceEvent'' p] \<and>
                    completes t now1 p"
    and oc: "case retrieve st (''OnBoarding '' @ account input) of
              None \<Rightarrow> os = [] \<and> oj = []
            | Some t \<Rightarrow>
                \<exists>p. os = [(''SuccessfulOnBoardingEvent'', p)] \<and>
                    oj = [Assigned (''OnBoarding '' @ account input) None,
                          Emitted ''SuccessfulOnBoardingEvent'' p] \<and>
                    completes t now2 p"
    by (rule released_delivery [OF assms, of now1 now2 uid], rule that; assumption)
  have mc': "case retrieve st (''Maintenance '' @ account input) of
              None \<Rightarrow> ms = []
            | Some t \<Rightarrow> \<exists>p. ms = [(''SuccessfulMaintenanceEvent'', p)] \<and> completes t now1 p"
  proof (cases "retrieve st (''Maintenance '' @ account input)")
    case None
    with mc show ?thesis by simp
  next
    case (Some t)
    with mc obtain p where "ms = [(''SuccessfulMaintenanceEvent'', p)]" "completes t now1 p"
      by auto
    with Some show ?thesis by simp
  qed
  have oc': "case retrieve st (''OnBoarding '' @ account input) of
              None \<Rightarrow> os = []
            | Some t \<Rightarrow> \<exists>p. os = [(''SuccessfulOnBoardingEvent'', p)] \<and> completes t now2 p"
  proof (cases "retrieve st (''OnBoarding '' @ account input)")
    case None
    with oc show ?thesis by simp
  next
    case (Some t)
    with oc obtain p where "os = [(''SuccessfulOnBoardingEvent'', p)]" "completes t now2 p"
      by auto
    with Some show ?thesis by simp
  qed
  from run em mc' oc' show ?thesis
    by - (rule exI [of _ ms], rule exI [of _ os], rule exI [of _ st'], intro conjI; assumption)
qed

theorem released_emits_completion_per_kind_witness:
  "label released_event = ''ReleasedAccount'' \<and> ledger_started onboarding_open \<and>
   fst (handle_account_event released_event 130 131 ''uid-2'' onboarding_open) =
     Inr ''[OK] ReleasedAccount 123456789012'' \<and>
   (\<exists>p. emitted (snd (handle_account_event released_event 130 131 ''uid-2'' onboarding_open)) =
          [(''SuccessfulOnBoardingEvent'', p)] \<and>
        dict_get p ''begin'' = Some (Num 100) \<and> dict_get p ''end'' = Some (Num 131) \<and>
        dict_get p ''duration'' = Some (Num 31) \<and> dict_get p ''identifier'' = Some (Str ''uid-1''))"
proof -
  from released_emits_completion_per_kind
         [OF released_event_label onboarding_open_started, of 130 131 "''uid-2''"]
  obtain ms os st' where
    run: "handle_account_event released_event 130 131 ''uid-2'' onboarding_open =
       (Inr (''[OK] '' @ label released_event @ '' '' @ account released_event), st')"
    and em: "emitted st' = emitted onboarding_open @ ms @ os"
    and mc: "case retrieve onboarding_open (''Maintenance '' @ account released_event) of
              None \<Rightarrow> ms = []
            | Some t \<Rightarrow> \<exists>p. ms = [(''SuccessfulMaintenanceEvent'', p)] \<and> completes t 130 p"
    and oc: "case retrieve onboarding_open (''OnBoarding '' @ account released_event) of
              None \<Rightarrow> os = []
            | Some t \<Rightarrow> \<exists>p. os = [(''SuccessfulOnBoardingEvent'', p)] \<and> completes t 131 p"
    by (elim exE conjE)
  have ms: "ms = []" using mc onboarding_open_ledger(1) by simp
  from oc obtain p where os: "os = [(''SuccessfulOnBoardingEvent'', p)]"
    and c: "completes [(''begin'', Num 100), (''identifier'', Str ''uid-1'')] (131::real) p"
    using onboarding_open_ledger(2) by auto
  have em': "emitted st' = [(''SuccessfulOnBoardingEvent'', p)]"
    by (simp add: em ms os onboarding_open_ledger)
  from c have fields: "dict_get p ''begin'' = Some (Num 100) \<and> dict_get p ''end'' = Some (Num 131) \<and>
        dict_get p ''duration'' = Some (Num 31) \<and> dict_get p ''identifier'' = Some (Str ''uid-1'')"
    by (simp add: completes_def dict_get_def [of "[_, _]"])
  have res: "fst (handle_account_event released_event 130 131 ''uid-2'' onboarding_open) =
     Inr ''[OK] ReleasedAccount 123456789012''"
    by (simp only: run fst_conv released_event_text)
  have "\<exists>p. emitted (snd (handle_account_event released_event 130 131 ''uid-2'' onboarding_open)) =
          [(''SuccessfulOnBoardingEvent'', p)] \<and>
        dict_get p ''begin'' = Some (Num 100) \<and> dict_get p ''end'' = Some (Num 131) \<and>
        dict_get p ''duration'' = Some (Num 31) \<and> dict_get p ''identifier'' = Some (Str ''uid-1'')"
    using em' fields by (simp only: run snd_conv) (rule exI [of _ p], simp)
  with released_event_label onboarding_open_started res show ?thesis
    by - (intro conjI; assumption)
qed

text \<open>
  Claim C1. Delivering the same ReleasedAccount event to the engine
  (handle_account_event) twice in succession, on a ledger of transactions started by
  the engine. The first delivery returns normally; for each kind whose record is in the
  ledger it makes exactly two calls, first the deletion of the record from the ledger
  and after it the emission of the completion event, and for a kind whose record is
  absent it makes no call; so it leaves neither record of the account in the ledger and
  has emitted one completion event per kind that was there. The second delivery returns
  normally and leaves the ledger, the emitted events and the journal of calls as they
  were: it finds nothing and emits nothing.
\<close>

theorem released_twice_emits_once:
  assumes "label input = ''ReleasedAccount''" and "ledger_started st"
  shows "\<exists>mj oj st1.
           handle_account_event input now1 now2 uid st =
             (Inr (''[OK] '' @ label input @ '' '' @ account input), st1) \<and>
           handle_account_event input now3 now4 uid' st1 =
             (Inr (''[OK] '' @ label input @ '' '' @ account input), st1) \<and>
           retrieve st1 (''Maintenance '' @ account input) = None \<and>
           retrieve st1 (''OnBoarding '' @ account input) = None \<and>
           journal st1 = journal st @ mj @ oj \<and>
           (case retrieve st (''Maintenance '' @ account input) of
              None \<Rightarrow> mj = []
            | Some t \<Rightarrow> \<exists>p. mj = [Assigned (''Maintenance '' @ account input) None,
                                  Emitted ''SuccessfulMaintenanceEvent'' p]) \<and>
           (case retrieve st (''OnBoarding '' @ account input) of
              None \<Rightarrow> oj = []
            | Some t \<Rightarrow> \<exists>p. oj = [Assigned (''OnBoarding '' @ account input) None,
                                  Emitted ''SuccessfulOnBoardingEvent'' p]) \<and>
           count_emitted ''SuccessfulMaintenanceEvent'' st1 =
             count_emitted ''SuccessfulMaintenanceEvent'' st +
               (if retrieve st (''Maintenance '' @ account input) = None then 0 else 1) \<and>
           count_emitted ''SuccessfulOnBoardingEvent'' st1 =
             count_emitted ''SuccessfulOnBoardingEvent'' st +
               (if retrieve st (''OnBoarding '' @ account input) = None then 0 else 1)"
proof -
  let ?mk = "''Maintenance '' @ account input" and ?ok = "''OnBoarding '' @ account input"
  let ?ml = "''SuccessfulMaintenanceEvent''" and ?ol = "''SuccessfulOnBoardingEvent''"
  obtain ms os mj oj st1 where
    run: "handle_account_event input now1 now2 uid st =
             (Inr (''[OK] '' @ label input @ '' '' @ account input), st1)"
    and em: "emitted st1 = emitted st @ ms @ os"
    and jo: "journal st1 = journal st @ mj @ oj"
    and dm: "retrieve st1 ?mk = None" and do: "retrieve st1 ?ok = None"
    and inv1: "ledger_started st1"
    and mc: "case retrieve st ?mk of None \<Rightarrow> ms = [] \<and> mj = []
             | Some t \<Rightarrow> \<exists>p. ms = [(?ml, p)] \<and> mj = [Assigned ?mk None, Emitted ?ml p] \<and>
                            completes t now1 p"
    and oc: "case retrieve st ?ok of None \<Rightarrow> os = [] \<and> oj = []
             | Some t \<Rightarrow> \<exists>p. os = [(?ol, p)] \<and> oj = [Assigned ?ok None, Emitted ?ol p] \<and>
                            completes t now2 p"
    by (rule released_delivery [OF assms, of now1 now2 uid], rule that; assumption)
  have again: "handle_account_event input now3 now4 uid' st1 =
                 (Inr (''[OK] '' @ label input @ '' '' @ account input), st1)"
    using assms(1) update_absent [OF dm, of ?ml now3] update_absent [OF do, of ?ol now4]
    by (simp add: handle_account_event_def handle_released_event_def
          update_maintenance_transaction_def update_onboarding_transaction_def)
  have mj: "case retrieve st ?mk of None \<Rightarrow> mj = []
             | Some t \<Rightarrow> \<exists>p. mj = [Assigned ?mk None, Emitted ?ml p]"
  proof (cases "retrieve st ?mk")
    case None
    with mc show ?thesis by simp
  next
    case (Some t)
    with mc obtain p where "mj = [Assigned ?mk None, Emitted ?ml p]" by auto
    with Some show ?thesis by simp
  qed
  have oj: "case retrieve st ?ok of None \<Rightarrow> oj = []
             | Some t \<Rightarrow> \<exists>p. oj = [Assigned ?ok None, Emitted ?ol p]"
  proof (cases "retrieve st ?ok")
    case None
    with oc show ?thesis by simp
  next
    case (Some t)
    with oc obtain p where "oj = [Assigned ?ok None, Emitted ?ol p]" by auto
    with Some show ?thesis by simp
  qed
  have ms_len: "length (filter (\<lambda>ev. fst ev = ?ml) ms) = (if retrieve st ?mk = None then 0 else 1)"
    and ms_other: "filter (\<lambda>ev. fst ev = ?ol) ms = []"
    using mc by (auto split: option.splits)
  have os_len: "length (filter (\<lambda>ev. fst ev = ?ol) os) = (if retrieve st ?ok = None then 0 else 1)"
    and os_other: "filter (\<lambda>ev. fst ev = ?ml) os = []"
    using oc by (auto split: option.splits)
  have cm: "count_emitted ?ml st1 =
             count_emitted ?ml st + (if retrieve st ?mk = None then 0 else 1)"
    using count_emitted_append [OF em, of ?ml] ms_len os_other by simp
  have co: "count_emitted ?ol st1 =
             count_emitted ?ol st + (if retrieve st ?ok = None then 0 else 1)"
    using count_emitted_append [OF em, of ?ol] os_len ms_other by simp
  from run again dm do jo mj oj cm co show ?thesis
    by - (rule exI [of _ mj], rule exI [of _ oj], rule exI [of _ st1], intro conjI; assumption)
qed

theorem released_twice_emits_once_witness:
  "label released_event = ''ReleasedAccount'' \<and> ledger_started onboarding_open \<and>
   fst (handle_account_event released_event 130 131 ''uid-2'' onboarding_open) =
     Inr ''[OK] ReleasedAccount 123456789012'' \<and>
   handle_account_event released_event 140 141 ''uid-3''
       (snd (handle_account_event released_event 130 131 ''uid-2'' onboarding_open)) =
     (Inr ''[OK] ReleasedAccount 123456789012'',
      snd (handle_account_event released_event 130 131 ''uid-2'' onboarding_open)) \<and>
   (\<exists>p. journal (snd (handle_account_event released_event 130 131 ''uid-2'' onboarding_open)) =
          [Assigned ''OnBoarding 123456789012''
             (Some [(''begin'', Num 100), (''identifier'', Str ''uid-1'')]),
           Assigned ''OnBoarding 123456789012'' None,
           Emitted ''SuccessfulOnBoardingEvent'' p]) \<and>
   count_emitted ''SuccessfulOnBoardingEvent''
     (snd (handle_account_event released_event 130 131 ''uid-2'' onboarding_open)) = 1 \<and>
   count_emitted ''SuccessfulMaintenanceEvent''
     (snd (handle_account_event released_event 130 131 ''uid-2'' onboarding_open)) = 0"
proof -
  let ?first = "handle_account_event released_event 130 131 ''uid-2'' onboarding_open"
  from released_twice_emits_once
         [OF released_event_label onboarding_open_started, of 130 131 "''uid-2''" 140 141 "''uid-3''"]
  obtain mj oj st1 where
    run: "?first = (Inr (''[OK] '' @ label released_event @ '' '' @ account released_event), st1)"
    and again: "handle_account_event released_event 140 141 ''uid-3'' st1 =
       (Inr (''[OK] '' @ label released_event @ '' '' @ account released_event), st1)"
    and "retrieve st1 (''Maintenance '' @ account released_event) = None"
    and "retrieve st1 (''OnBoarding '' @ account released_event) = None"
    and jo: "journal st1 = journal onboarding_open @ mj @ oj"
    and mc: "case retrieve onboarding_open (''Maintenance '' @ account released_event) of
              None \<Rightarrow> mj = []
            | Some t \<Rightarrow> \<exists>p. mj = [Assigned (''Maintenance '' @ account released_event) None,
                                  Emitted ''SuccessfulMaintenanceEvent'' p]"
    and oc: "case retrieve onboarding_open (''OnBoarding '' @ account released_event) of
              None \<Rightarrow> oj = []
            | Some t \<Rightarrow> \<exists>p. oj = [Assigned (''OnBoarding '' @ account released_event) None,
                                  Emitted ''SuccessfulOnBoardingEvent'' p]"
    and cm: "count_emitted ''SuccessfulMaintenanceEvent'' st1 =
             count_emitted ''SuccessfulMaintenanceEvent'' onboarding_open +
               (if retrieve onboarding_open (''Maintenance '' @ account released_event) = None
                then 0 else 1)"
    and co: "count_emitted ''SuccessfulOnBoardingEvent'' st1 =
             count_emitted ''SuccessfulOnBoardingEvent'' onboarding_open +
               (if retrieve onboarding_open (''OnBoarding '' @ account released_event) = None
                then 0 else 1)"
    by (elim exE conjE)
  have mj: "mj = []" using mc onboarding_open_ledger(1) by simp
  from oc obtain p where oj: "oj = [Assigned ''OnBoarding 123456789012'' None,
                                    Emitted ''SuccessfulOnBoardingEvent'' p]"
    using onboarding_open_ledger(2) by (auto simp: released_event_def)
  have j: "journal st1 =
          [Assigned ''OnBoarding 123456789012''
             (Some [(''begin'', Num 100), (''identifier'', Str ''uid-1'')]),
           Assigned ''OnBoarding 123456789012'' None,
           Emitted ''SuccessfulOnBoardingEvent'' p]"
    by (simp add: jo mj oj onboarding_open_ledger(4))
  have c0: "count_emitted lbl onboarding_open = 0" for lbl
    by (simp add: count_emitted_def onboarding_open_ledger(3))
  have cm': "count_emitted ''SuccessfulMaintenanceEvent'' st1 = 0"
    using cm onboarding_open_ledger(1) by (simp add: c0)
  have co': "count_emitted ''SuccessfulOnBoardingEvent'' st1 = 1"
    using co onboarding_open_ledger(2) by (simp add: c0)
  have f: "fst ?first = Inr ''[OK] ReleasedAccount 123456789012''"
    by (simp only: run fst_conv released_event_text)
  have s: "snd ?first = st1" by (simp only: run snd_conv)
  have a: "handle_account_event released_event 140 141 ''uid-3'' (snd ?first) =
             (Inr ''[OK] ReleasedAccount 123456789012'', snd ?first)"
    using again by (simp only: s released_event_text)
  have jj: "\<exists>p. journal (snd ?first) =
          [Assigned ''OnBoarding 123456789012''
             (Some [(''begin'', Num 100), (''identifier'', Str ''uid-1'')]),
           Assigned ''OnBoarding 123456789012'' None,
           Emitted ''SuccessfulOnBoardingEvent'' p]"
    unfolding s using j by (rule exI [of _ p])
  have co'': "count_emitted ''SuccessfulOnBoardingEvent'' (snd ?first) = 1"
    using co' by (simp only: s)
  have cm'': "count_emitted ''SuccessfulMaintenanceEvent'' (snd ?first) = 0"
    using cm' by (simp only: s)
  from released_event_label onboarding_open_started f a jj co'' cm'' show ?thesis
    by - (intro conjI; assumption)
qed

text \<open>
  Claim C7. A CreatedAccount event (kind OnBoarding) or an ExpiredAccount event (kind
  Maintenance) for an account writes the transaction begin = reading of the clock,
  identifier = the identifier drawn by the call, under the key "kind account", whatever
  the ledger held under that key before; the other records and the emitted events stay
  as they were. Delivered again, the event replaces the begin by the new reading.
\<close>

theorem starting_event_overwrites:
  assumes "(label input, kind) \<in> {(''CreatedAccount'', ''OnBoarding''), (''ExpiredAccount'', ''Maintenance'')}"
  shows "\<exists>st'. handle_account_event input now now' uid st =
                  (Inr (''[OK] '' @ label input @ '' '' @ account input), st') \<and>
           retrieve st' (kind @ '' '' @ account input) =
             Some [(''begin'', Num now), (''identifier'', Str uid)] \<and>
           (\<forall>key. key \<noteq> kind @ '' '' @ account input \<longrightarrow> retrieve st' key = retrieve st key) \<and>
           emitted st' = emitted st"
  using assms
  by (auto simp: handle_account_event_def handle_created_event_def handle_expired_event_def
        retrieve_assign emitted_assign Let_def)

theorem starting_event_overwrites_witness:
  "(label created_event, ''OnBoarding'') \<in>
      {(''CreatedAccount'', ''OnBoarding''), (''ExpiredAccount'', ''Maintenance'')} \<and>
   retrieve onboarding_open ''OnBoarding 123456789012'' =
     Some [(''begin'', Num 100), (''identifier'', Str ''uid-1'')] \<and>
   retrieve (snd (handle_account_event created_event 250 251 ''uid-2'' onboarding_open))
       ''OnBoarding 123456789012'' =
     Some [(''begin'', Num 250), (''identifier'', Str ''uid-2'')]"
proof -
  have h: "(label created_event, ''OnBoarding'') \<in>
      {(''CreatedAccount'', ''OnBoarding''), (''ExpiredAccount'', ''Maintenance'')}"
    by (simp add: created_event_def)
  have before: "retrieve onboarding_open ''OnBoarding 123456789012'' =
     Some [(''begin'', Num 100), (''identifier'', Str ''uid-1'')]"
    by (simp add: onboarding_open_def handle_created_event_def created_event_def
          no_transaction_def assign_def retrieve_def Let_def)
  from starting_event_overwrites [OF h, of 250 251 "''uid-2''" onboarding_open]
  have "retrieve (snd (handle_account_event created_event 250 251 ''uid-2'' onboarding_open))
       ''OnBoarding 123456789012'' = Some [(''begin'', Num 250), (''identifier'', Str ''uid-2'')]"
    by (auto simp: created_event_def)
  with h before show ?thesis by blast
qed

section \<open>Properties of the reporting aggregator\<close>

lemma first_seen_set: "set (first_seen xs) = set xs"
  by (induction xs) auto

lemma first_seen_distinct: "distinct (first_seen xs)"
  by (induction xs) (auto simp: first_seen_set)

lemma first_seen_length: "length (first_seen xs) = card (set xs)"
  using distinct_card [OF first_seen_distinct, of xs] by (simp add: first_seen_set)

lemma make_row_reportable:
  assumes "reportable r"
  shows "\<exists>row. make_row (rec_value r) = Inr row \<and>
           writerow fieldnames row buffer = buffer @ [row_of r]"
proof -
  from assms obtain c t s a i d where
    "dict_get (rec_value r) ''cost-center'' = Some c"
    "dict_get (rec_value r) ''transaction'' = Some t"
    "dict_get (rec_value r) ''stamp'' = Some s"
    "dict_get (rec_value r) ''account'' = Some a"
    "dict_get (rec_value r) ''identifier'' = Some i"
    "dict_get (rec_value r) ''duration'' = Some d"
    by (auto simp: reportable_def)
  then show ?thesis
    by (simp add: make_row_def getitem_def bind_error_def writerow_def fieldnames_def row_of_def
          dict_get_def [of "[_]"] dict_get_def [of "_ # _ # _"])
qed

text \<open>
  The loop, started from any reports: the labels of the records are added to the keys in
  the order in which they are first seen, and the buffer of a label gets the rows of its
  records, in their order, after what it held.
\<close>

lemma map_filter_Cons_Some: "f x = Some y \<Longrightarrow> List.map_filter f (x # xs) = y # List.map_filter f xs"
  by (simp add: List.map_filter_def)

lemma build_reports_loop_reportable:
  assumes "\<forall>r\<in>set records. reportable r"
  shows "\<exists>reports'. build_reports_loop reports records = Inr reports' \<and>
           map fst reports' =
             map fst reports @
               filter (\<lambda>k. k \<notin> fst ` set reports) (first_seen (List.map_filter cost_center records)) \<and>
           (\<forall>lbl. dict_get reports' lbl =
              (if Some lbl \<in> cost_center ` set records
               then Some ((case dict_get reports lbl of None \<Rightarrow> get_reporter | Some b \<Rightarrow> b) @
                          map row_of (filter (\<lambda>r. cost_center r = Some lbl) records))
               else dict_get reports lbl))"
  using assms
proof (induction records arbitrary: reports)
  case Nil
  show ?case by (simp add: List.map_filter_def)
next
  case (Cons r records)
  from Cons.prems have rep: "reportable r" and rest: "\<forall>r\<in>set records. reportable r"
    by simp_all
  from rep obtain l where l: "dict_get (rec_value r) ''cost-center'' = Some l"
    by (auto simp: reportable_def)
  then have cc: "cost_center r = Some l" by (simp add: cost_center_def)
  define buffer where "buffer = (case dict_get reports l of None \<Rightarrow> get_reporter | Some b \<Rightarrow> b)"
  from make_row_reportable [OF rep, of buffer] obtain row where
    row: "make_row (rec_value r) = Inr row"
    and wr: "writerow fieldnames row buffer = buffer @ [row_of r]" by blast
  define reports1 where "reports1 = dict_set reports l (buffer @ [row_of r])"
  have step: "build_reports_loop reports (r # records) = build_reports_loop reports1 records"
    using l row wr
    by (simp add: getitem_def bind_error_def Let_def reports1_def buffer_def)
  from Cons.IH [OF rest, of reports1] obtain reports' where
    run: "build_reports_loop reports1 records = Inr reports'"
    and keys: "map fst reports' =
             map fst reports1 @
               filter (\<lambda>k. k \<notin> fst ` set reports1) (first_seen (List.map_filter cost_center records))"
    and get: "\<And>lbl. dict_get reports' lbl =
              (if Some lbl \<in> cost_center ` set records
               then Some ((case dict_get reports1 lbl of None \<Rightarrow> get_reporter | Some b \<Rightarrow> b) @
                          map row_of (filter (\<lambda>r. cost_center r = Some lbl) records))
               else dict_get reports1 lbl)"
    by blast
  have eq: "filter (\<lambda>k. k \<notin> fst ` set reports) (filter (\<lambda>y. y \<noteq> l) xs) =
            filter (\<lambda>k. k \<notin> insert l (fst ` set reports)) xs" for xs
    by (induction xs) auto
  have keys': "map fst reports' =
             map fst reports @
               filter (\<lambda>k. k \<notin> fst ` set reports)
                 (first_seen (List.map_filter cost_center (r # records)))"
    unfolding keys reports1_def
    using map_filter_Cons_Some [of cost_center r l records] cc
    by (simp add: keys_dict_set keyset_dict_set eq insert_absorb)
  have get1: "dict_get reports1 lbl = (if lbl = l then Some (buffer @ [row_of r]) else dict_get reports lbl)" for lbl
    by (simp add: reports1_def dict_get_dict_set)
  have get': "dict_get reports' lbl =
              (if Some lbl \<in> cost_center ` set (r # records)
               then Some ((case dict_get reports lbl of None \<Rightarrow> get_reporter | Some b \<Rightarrow> b) @
                          map row_of (filter (\<lambda>r. cost_center r = Some lbl) (r # records)))
               else dict_get reports lbl)" for lbl
  proof (cases "lbl = l")
    case True
    have none: "Some l \<notin> cost_center ` set records \<Longrightarrow> filter (\<lambda>r. cost_center r = Some l) records = []"
      by (force simp: filter_empty_conv)
    show ?thesis
      using True cc none by (auto simp: get get1 buffer_def)
  next
    case False
    then show ?thesis
      using cc by (auto simp: get get1)
  qed
  from step run keys' get' show ?case by auto
qed

lemma map_filter_set_reportable:
  "\<forall>r\<in>set records. reportable r \<Longrightarrow>
     Some ` set (List.map_filter cost_center records) = cost_center ` set records"
proof (induction records)
  case Nil
  show ?case by (simp add: List.map_filter_def)
next
  case (Cons r records)
  then obtain l where "cost_center r = Some l"
    by (auto simp: reportable_def cost_center_def)
  with Cons show ?case
    using map_filter_Cons_Some [of cost_center r l records] by simp
qed

text \<open>A record without a cost center ends the run with a \<^verbatim>\<open>KeyError\<close>.\<close>

lemma build_reports_missing_cost_center:
  "cost_center r = None \<Longrightarrow> build_reports (r # records) = Inl (KeyError ''cost-center'')"
  by (simp add: build_reports_def cost_center_def getitem_def bind_error_def)

lemma five_days_reportable: "\<forall>r\<in>set five_days. reportable r"
  by (simp add: five_days_def activity_def reportable_def dict_get_def)

lemma five_days_centers:
  "map cost_center five_days =
     [Some ''Alpha'', Some ''Bravo'', Some ''Alpha'', Some ''Charlie'', Some ''Bravo'']"
  by (simp add: five_days_def activity_def cost_center_def dict_get_def)

lemma metered_no_cost_center: "cost_center metered = None"
  by (simp add: metered_def cost_center_def dict_get_def)

text \<open>
  Claim C8, as stated, is about any finite sequence of records. It fails on a record
  that lacks one of the fields read by build_reports: the record stored for a
  completion event of the metering engine has no cost center, and the call raises
  KeyError for cost-center instead of returning buffers; a record of cost center Alpha
  without an account raises KeyError for account instead of giving the buffer of Alpha.
\<close>

theorem build_reports_any_records_counterexample:
  "build_reports [metered] = Inl (KeyError ''cost-center'') \<and>
   cost_center unaccounted = Some ''Alpha'' \<and>
   build_reports [unaccounted] = Inl (KeyError ''account'')"
  by (simp add: build_reports_def metered_def unaccounted_def cost_center_def getitem_def
        bind_error_def make_row_def dict_get_def)

text \<open>
  Claim C8, amended. build_reports, over any finite sequence of records whose stored
  payloads all carry the six fields cost-center, transaction, stamp, account, identifier
  and duration, returns one buffer per distinct cost center, the cost centers in the
  order in which they are first seen; the buffer of a cost center is the header line
  (Cost Center, Transaction, Stamp, Account, Identifier, Duration), written once and
  first, followed by one row per record of that cost center, in the order of the
  records, with the values in the order of the header, and by no row of another cost
  center. Records over three cost centers give three buffers.
\<close>

theorem build_reports_groups:
  assumes "\<forall>r\<in>set records. reportable r"
  shows "\<exists>reports. build_reports records = Inr reports \<and>
           map fst reports = first_seen (List.map_filter cost_center records) \<and>
           distinct (map fst reports) \<and>
           length reports = card (cost_center ` set records) \<and>
           (\<forall>(lbl, buffer)\<in>set reports.
              buffer = Header fieldnames #
                         map row_of (filter (\<lambda>r. cost_center r = Some lbl) records))"
proof -
  let ?labels = "List.map_filter cost_center records"
  from build_reports_loop_reportable [OF assms, of "[]"] obtain reports where
    run: "build_reports records = Inr reports"
    and keys: "map fst reports = first_seen ?labels"
    and get: "\<And>lbl. dict_get reports lbl =
              (if Some lbl \<in> cost_center ` set records
               then Some (get_reporter @ map row_of (filter (\<lambda>r. cost_center r = Some lbl) records))
               else None)"
    by (auto simp: build_reports_def dict_get_def)
  have dist: "distinct (map fst reports)"
    by (simp add: keys first_seen_distinct)
  have "length reports = length (map fst reports)" by simp
  also have "\<dots> = card (set ?labels)"
    by (simp only: keys first_seen_length)
  also have "\<dots> = card (Some ` set ?labels)"
    by (simp add: card_image)
  also have "\<dots> = card (cost_center ` set records)"
    by (simp only: map_filter_set_reportable [OF assms])
  finally have len: "length reports = card (cost_center ` set records)" .
  have bufs: "\<forall>(lbl, buffer)\<in>set reports.
              buffer = Header fieldnames #
                         map row_of (filter (\<lambda>r. cost_center r = Some lbl) records)"
  proof (clarify)
    fix lbl buffer
    assume "(lbl, buffer) \<in> set reports"
    with dist have "dict_get reports lbl = Some buffer"
      by (simp add: dict_get_def)
    with get [of lbl] show "buffer = Header fieldnames #
                         map row_of (filter (\<lambda>r. cost_center r = Some lbl) records)"
      by (simp add: get_reporter_def split: if_splits)
  qed
  from run keys dist len bufs show ?thesis by blast
qed

theorem build_reports_groups_witness:
  "list_all reportable five_days \<and>
   (\<exists>reports. build_reports five_days = Inr reports \<and>
      map fst reports = [''Alpha'', ''Bravo'', ''Charlie''] \<and>
      length reports = 3 \<and>
      dict_get reports ''Alpha'' =
        Some [Header fieldnames, row_of (activity ''2023-03-01'' ''Alpha'' ''a''),
              row_of (activity ''2023-03-03'' ''Alpha'' ''c'')] \<and>
      dict_get reports ''Bravo'' =
        Some [Header fieldnames, row_of (activity ''2023-03-02'' ''Bravo'' ''b''),
              row_of (activity ''2023-03-05'' ''Bravo'' ''e'')] \<and>
      dict_get reports ''Charlie'' =
        Some [Header fieldnames, row_of (activity ''2023-03-04'' ''Charlie'' ''d'')])"
proof -
  have cc: "cost_center (activity day center ident) = Some center" for day center ident
    by (simp add: activity_def cost_center_def dict_get_def)
  have labels: "List.map_filter cost_center five_days =
      [''Alpha'', ''Bravo'', ''Alpha'', ''Charlie'', ''Bravo'']"
    by (simp add: five_days_def List.map_filter_def cc)
  from build_reports_groups [OF five_days_reportable] obtain reports where
    run: "build_reports five_days = Inr reports"
    and keys: "map fst reports = first_seen (List.map_filter cost_center five_days)"
    and dist: "distinct (map fst reports)"
    and bufs: "\<forall>(lbl, buffer)\<in>set reports.
              buffer = Header fieldnames #
                         map row_of (filter (\<lambda>r. cost_center r = Some lbl) five_days)"
    by blast
  have keys': "map fst reports = [''Alpha'', ''Bravo'', ''Charlie'']"
    by (simp add: keys labels)
  then have len: "length reports = 3"
    using length_map [of fst reports] by simp
  have look: "dict_get reports lbl =
      Some (Header fieldnames # map row_of (filter (\<lambda>r. cost_center r = Some lbl) five_days))"
    if "lbl \<in> set (map fst reports)" for lbl
  proof -
    from that obtain buffer where m: "(lbl, buffer) \<in> set reports" by auto
    with dist have "dict_get reports lbl = Some buffer" by (simp add: dict_get_def)
    with bufs m show ?thesis by auto
  qed
  have a: "dict_get reports ''Alpha'' =
        Some [Header fieldnames, row_of (activity ''2023-03-01'' ''Alpha'' ''a''),
              row_of (activity ''2023-03-03'' ''Alpha'' ''c'')]"
    using look [of "''Alpha''"] by (simp add: keys' five_days_def cc)
  have b: "dict_get reports ''Bravo'' =
        Some [Header fieldnames, row_of (activity ''2023-03-02'' ''Bravo'' ''b''),
              row_of (activity ''2023-03-05'' ''Bravo'' ''e'')]"
    using look [of "''Bravo''"] by (simp add: keys' five_days_def cc)
  have c: "dict_get reports ''Charlie'' =
        Some [Header fieldnames, row_of (activity ''2023-03-04'' ''Charlie'' ''d'')]"
    using look [of "''Charlie''"] by (simp add: keys' five_days_def cc)
  have all: "list_all reportable five_days"
    using five_days_reportable by (simp add: list_all_iff)
  from all run keys' len a b c show ?thesis
    by - (intro conjI exI [of _ reports]; assumption)
qed

end
